theory Spec2Isabelle
  imports Main "HOL-Library.Sublist" "HOL-Library.AList" "HOL-Library.Multiset"
begin

section \<open>Strings\<close>

text \<open>
  The program is TypeScript; its strings are sequences of UTF-16 code units. They are
  modelled as \<^typ>\<open>string\<close>, a list of 8-bit characters, each read as the code unit of
  the same number: ASCII and the Latin-1 supplement. On these, \<open>toLowerCase\<close>,
  \<open>trim\<close> and the character classes of the regular expressions below are JavaScript's.

  The line numbers quoted below are those of \<open>src/types/index.ts\<close>, which holds the
  types of the catalog and, after them, the command \<open>add\<close> with its helper
  \<open>extractSvgContent\<close>.
\<close>

definition toLowerChar :: "char \<Rightarrow> char" where
  "toLowerChar c =
     (let n = (of_char c :: nat)
      in if (65 \<le> n \<and> n \<le> 90) \<or> (192 \<le> n \<and> n \<le> 222 \<and> n \<noteq> 215)
         then char_of (n + 32) else c)"

definition toLowerCase :: "string \<Rightarrow> string" where
  "toLowerCase s = map toLowerChar s"

text \<open>The class \<open>[a-z0-9]\<close>.\<close>

definition isLowerAlnum :: "char \<Rightarrow> bool" where
  "isLowerAlnum c =
     (let n = (of_char c :: nat) in (97 \<le> n \<and> n \<le> 122) \<or> (48 \<le> n \<and> n \<le> 57))"

text \<open>The class \<open>[a-zA-Z0-9]\<close>.\<close>

definition isAlnum :: "char \<Rightarrow> bool" where
  "isAlnum c =
     (let n = (of_char c :: nat)
      in (97 \<le> n \<and> n \<le> 122) \<or> (65 \<le> n \<and> n \<le> 90) \<or> (48 \<le> n \<and> n \<le> 57))"

text \<open>The class \<open>\w\<close>, that is \<open>[A-Za-z0-9_]\<close>.\<close>

definition isWordChar :: "char \<Rightarrow> bool" where
  "isWordChar c = (isAlnum c \<or> c = CHR ''_'')"

text \<open>What \<open>trim\<close> removes: tab, line feed, vertical tab, form feed, carriage return,
  space and the no-break space.\<close>

definition isWhiteSpace :: "char \<Rightarrow> bool" where
  "isWhiteSpace c = ((of_char c :: nat) \<in> {9, 10, 11, 12, 13, 32, 160})"

definition trim :: "string \<Rightarrow> string" where
  "trim s = rev (dropWhile isWhiteSpace (rev (dropWhile isWhiteSpace s)))"

text \<open>\<open>s.replace(/[^a-z0-9]+/g, '-')\<close>: every maximal run of characters outside
  \<open>[a-z0-9]\<close> becomes one separator.\<close>

function collapseRuns :: "string \<Rightarrow> string" where
  "collapseRuns [] = []"
| "collapseRuns (c # cs) =
     (if isLowerAlnum c then c # collapseRuns cs
      else CHR ''-'' # collapseRuns (dropWhile (\<lambda>d. \<not> isLowerAlnum d) cs))"
  by pat_completeness auto
termination
  by (relation "measure length") (auto simp: length_dropWhile_le less_Suc_eq_le)

text \<open>\<open>s.replace(/^-|-$/g, '')\<close>: the first alternative matches a separator at the
  start, the second a separator at the end of what is left; each at most once.\<close>

definition trimDash :: "string \<Rightarrow> string" where
  "trimDash s =
     (let s1 = (case s of [] \<Rightarrow> [] | c # cs \<Rightarrow> if c = CHR ''-'' then cs else s)
      in if s1 \<noteq> [] \<and> last s1 = CHR ''-'' then butlast s1 else s1)"

text \<open>The file slug, \<open>kebabName\<close> at lines 53, 71 and 89 of the command and
  \<open>fileName\<close> at line 143: the same expression each time.\<close>

definition kebabName :: "string \<Rightarrow> string" where
  "kebabName t = trimDash (collapseRuns (toLowerCase t))"

text \<open>The symbol name, \<open>title.replace(/[^a-zA-Z0-9]/g, '')\<close>.\<close>

definition componentName :: "string \<Rightarrow> string" where
  "componentName t = filter isAlnum t"

text \<open>No two separators next to each other.\<close>

fun singleSeparators :: "string \<Rightarrow> bool" where
  "singleSeparators [] = True"
| "singleSeparators [c] = True"
| "singleSeparators (a # b # cs) =
     ((a \<noteq> CHR ''-'' \<or> b \<noteq> CHR ''-'') \<and> singleSeparators (b # cs))"

text \<open>\<open>s.replace(pat, rep)\<close> with a literal pattern, also \<open>s.replace(/<svg/, rep)\<close>:
  the first occurrence only; the replacements used here hold no \<open>$\<close> pattern.\<close>

fun replaceFirst :: "string \<Rightarrow> string \<Rightarrow> string \<Rightarrow> string" where
  "replaceFirst pat rep [] = (if pat = [] then rep else [])"
| "replaceFirst pat rep (c # cs) =
     (if prefix pat (c # cs) then rep @ drop (length pat) (c # cs)
      else c # replaceFirst pat rep cs)"

text \<open>\<open>xs.join(sep)\<close>.\<close>

fun joinWith :: "string \<Rightarrow> string list \<Rightarrow> string" where
  "joinWith sep [] = []"
| "joinWith sep [x] = x"
| "joinWith sep (x # y # ys) = x @ sep @ joinWith sep (y # ys)"

definition nl :: string where
  "nl = [CHR 0x0A]"

text \<open>A template literal, line by line: every line of it ends with a line feed.\<close>

definition lines :: "string list \<Rightarrow> string" where
  "lines ls = concat (map (\<lambda>l. l @ nl) ls)"

section \<open>The markup sanitizer\<close>

text \<open>A match of \<open>key="[^"]*"\<close> at the start of the text: what follows the match. The
  greedy \<open>[^"]*\<close> runs to the next double quote, which must exist.\<close>

definition matchAttrAt :: "string \<Rightarrow> string \<Rightarrow> string option" where
  "matchAttrAt key s =
     (if prefix (key @ [CHR ''='', CHR 0x22]) s
      then (let r = dropWhile (\<lambda>c. c \<noteq> CHR 0x22) (drop (length key + 2) s)
            in if r = [] then None else Some (tl r))
      else None)"

text \<open>\<open>s.replace(/key="[^"]*"/, '')\<close>: the leftmost match is removed.\<close>

fun removeFirstAttr :: "string \<Rightarrow> string \<Rightarrow> string" where
  "removeFirstAttr key [] = []"
| "removeFirstAttr key (c # cs) =
     (case matchAttrAt key (c # cs) of
        Some rest \<Rightarrow> rest
      | None \<Rightarrow> c # removeFirstAttr key cs)"

definition extractSvgContent :: "string \<Rightarrow> string" where
  "extractSvgContent svgString =
     removeFirstAttr ''height'' (removeFirstAttr ''width'' (trim svgString))"

section \<open>The data model\<close>

record Category =
  categoryName :: string
  total :: int

text \<open>\<open>string | ThemeOptions\<close>.\<close>

datatype source = Single string | Themed (light: string) (dark: string)

record iSVG =
  svgId :: "nat option"
  title :: string
  category :: "Category list"
  route :: source
  wordmark :: "source option"
  brandUrl :: "string option"
  url :: string

text \<open>An entry of \<open>createdComponents\<close>; \<open>isWordmark\<close> is absent from the entry of a
  base component.\<close>

record component =
  name :: string
  fileName :: string
  hasDarkLight :: bool
  isWordmark :: "bool option"

datatype error = FetchError | WriteError

text \<open>
  What the command meets outside itself: the answer of the catalog service (\<open>None\<close> when
  the request throws), the text behind a locator (\<open>None\<close> when \<open>axios.get\<close> throws or
  the answer is not text), the user's selection at the prompt, the paths at which
  \<open>fs.writeFile\<close> throws, whether \<open>fs.ensureDir\<close> and \<open>fs.readdir\<close> throw, and the
  files at which \<open>fs.readFile\<close> throws.
\<close>

record env =
  catalog :: "iSVG list option"
  fetch :: "string \<Rightarrow> string option"
  prompt :: "iSVG list \<Rightarrow> iSVG list option"
  writeFails :: "string \<Rightarrow> bool"
  ensureDirFails :: bool
  readdirFails :: bool
  readFails :: "string \<Rightarrow> bool"

text \<open>
  The directory \<open>components/svgl\<close>: file names with their contents, in the order
  \<open>fs.readdir\<close> lists them. A directory that does not exist yet is the empty one. The
  order of a listing is the file system's and the code does not fix it: the model lists a
  new file after the others and leaves a rewritten one in its place. What is stated below
  of the order of an export list is stated of the listing at hand.
\<close>

type_synonym dir = "(string \<times> string) list"

definition writeFile :: "env \<Rightarrow> dir \<Rightarrow> string \<Rightarrow> string \<Rightarrow> error + dir" where
  "writeFile e d path content =
     (if writeFails e path then Inl WriteError else Inr (AList.update path content d))"

text \<open>What the command prints with \<open>console.log\<close>, \<open>console.error\<close> and the
  spinner's \<open>succeed\<close>, and the prompt it shows.\<close>

datatype console_msg =
    NoSVGsFound
  | NoneOfRequestedFound
  | AvailableSVGs string
  | FoundExactMatches nat "string list"
  | CouldNotFind "string list"
  | PromptShown
  | FailedToCreate string error
  | Succeed nat nat
  | Usage string
  | FailedToFetchOrProcess

record gen_state =
  files :: dir
  createdComponents :: "component list"
  console :: "console_msg list"

section \<open>The catalog resolver\<close>

definition requestedNames :: "string list \<Rightarrow> string list" where
  "requestedNames args = map toLowerCase args"

text \<open>Lines 51 to 61.\<close>

definition selectExact :: "iSVG list \<Rightarrow> string list \<Rightarrow> iSVG list" where
  "selectExact svgs args =
     filter (\<lambda>svg.
       let svgName = toLowerCase (title svg);
           kebab = kebabName (title svg)
       in list_ex (\<lambda>n. kebab = toLowerCase n \<or> svgName = toLowerCase n) (requestedNames args))
     svgs"

text \<open>Lines 87 to 100.\<close>

definition foundNames :: "iSVG list \<Rightarrow> string list" where
  "foundNames selectedSVGs =
     concat (map (\<lambda>svg. [toLowerCase (title svg), kebabName (title svg)]) selectedSVGs)"

definition notFound :: "string list \<Rightarrow> iSVG list \<Rightarrow> string list" where
  "notFound args selectedSVGs =
     filter (\<lambda>n. \<not> list_ex (\<lambda>foundName. foundName = toLowerCase n) (foundNames selectedSVGs))
       (requestedNames args)"

section \<open>The component generator\<close>

subsection \<open>The emitted components\<close>

text \<open>The \<open>markup.replace(/<svg/, ...)\<close> of lines 174, 262, 296 and 298.\<close>

definition injectProps :: "string \<Rightarrow> string" where
  \<open>injectProps markup =
     replaceFirst ''<svg''
       ''<svg className={className} width={width} height={height} {...props}'' markup\<close>

text \<open>The same at lines 216 and 218, where the replacement spans five lines.\<close>

definition injectPropsLines :: "string \<Rightarrow> string" where
  \<open>injectPropsLines markup =
     replaceFirst ''<svg''
       (''<svg'' @ nl @ ''      className={className}'' @ nl @ ''      width={width}'' @ nl
        @ ''      height={height}'' @ nl @ ''      {...props}'') markup\<close>

text \<open>Lines 159 to 177.\<close>

definition singleTemplate :: "string \<Rightarrow> string \<Rightarrow> string" where
  \<open>singleTemplate cname svgMarkup = lines
    [''import React from 'react';'',
     [],
     ''interface '' @ cname @ ''Props {'',
     ''  className?: string;'',
     ''  width?: number | string;'',
     ''  height?: number | string;'',
     ''}'',
     [],
     ''export const '' @ cname @ '': React.FC<'' @ cname @ ''Props> = ({'',
     ''  className,'',
     ''  width = 24,'',
     ''  height = 24,'',
     ''  ...props'',
     ''}) => {'',
     ''  return ('',
     ''    '' @ injectProps svgMarkup,
     ''  );'',
     ''};'']\<close>

text \<open>Lines 189 to 221.\<close>

definition themedTemplate :: "string \<Rightarrow> string \<Rightarrow> string \<Rightarrow> string" where
  \<open>themedTemplate cname lightSvgMarkup darkSvgMarkup = lines
    [''import React, { useEffect, useState } from 'react';'',
     ''import { useTheme } from 'next-themes';'',
     [],
     ''interface '' @ cname @ ''Props {'',
     ''  className?: string;'',
     ''  width?: number | string;'',
     ''  height?: number | string;'',
     ''}'',
     [],
     ''export const '' @ cname @ '': React.FC<'' @ cname @ ''Props> = ({'',
     ''  className,'',
     ''  width = 24,'',
     ''  height = 24,'',
     ''  ...props'',
     ''}) => {'',
     ''  const { resolvedTheme } = useTheme();'',
     ''  // Add client-side only rendering to avoid hydration mismatch'',
     ''  const [mounted, setMounted] = useState(false);'',
     ''  '',
     ''  useEffect(() => {'',
     ''    setMounted(true);'',
     ''  }, []);'',
     ''  '',
     ''  // During SSR and initial client render, default to light theme'',
     ''  const isDark = mounted && resolvedTheme === 'dark';'',
     [],
     ''  return isDark ? ('',
     ''    '' @ injectPropsLines darkSvgMarkup,
     ''  ) : ('',
     ''    '' @ injectPropsLines lightSvgMarkup,
     ''  );'',
     ''};'']\<close>

text \<open>Lines 247 to 265.\<close>

definition wordmarkTemplate :: "string \<Rightarrow> string \<Rightarrow> string" where
  \<open>wordmarkTemplate cname wordmarkSvgMarkup = lines
    [''import React from 'react';'',
     [],
     ''interface '' @ cname @ ''WordmarkProps {'',
     ''  className?: string;'',
     ''  width?: number | string;'',
     ''  height?: number | string;'',
     ''}'',
     [],
     ''export const '' @ cname @ ''Wordmark: React.FC<'' @ cname @ ''WordmarkProps> = ({'',
     ''  className,'',
     ''  width = 100,'',
     ''  height = 24,'',
     ''  ...props'',
     ''}) => {'',
     ''  return ('',
     ''    '' @ injectProps wordmarkSvgMarkup,
     ''  );'',
     ''};'']\<close>

text \<open>Lines 277 to 301.\<close>

definition themedWordmarkTemplate :: "string \<Rightarrow> string \<Rightarrow> string \<Rightarrow> string" where
  \<open>themedWordmarkTemplate cname lightWordmarkMarkup darkWordmarkMarkup = lines
    [''import React from 'react';'',
     ''import { useTheme } from 'next-themes';'',
     [],
     ''interface '' @ cname @ ''WordmarkProps {'',
     ''  className?: string;'',
     ''  width?: number | string;'',
     ''  height?: number | string;'',
     ''}'',
     [],
     ''export const '' @ cname @ ''Wordmark: React.FC<'' @ cname @ ''WordmarkProps> = ({'',
     ''  className,'',
     ''  width = 100,'',
     ''  height = 24,'',
     ''  ...props'',
     ''}) => {'',
     ''  const { resolvedTheme } = useTheme();'',
     ''  const isDark = resolvedTheme === 'dark';'',
     [],
     ''  return isDark ? ('',
     ''    '' @ injectProps darkWordmarkMarkup,
     ''  ) : ('',
     ''    '' @ injectProps lightWordmarkMarkup,
     ''  );'',
     ''};'']\<close>

text \<open>
  What the emitted function bodies compute when React runs them. The state \<open>mounted\<close>
  starts as \<open>false\<close> (\<open>useState(false)\<close>) and the effect sets it once the component has
  mounted, so the first render is the one with \<open>mounted = False\<close>; \<open>resolvedTheme\<close> is
  what \<open>useTheme\<close> returns at that render. Lines 204 to 219:
\<close>

definition renderThemed :: "bool \<Rightarrow> string \<Rightarrow> string \<Rightarrow> string \<Rightarrow> string" where
  "renderThemed mounted resolvedTheme lightSvgMarkup darkSvgMarkup =
     (let isDark = (mounted \<and> resolvedTheme = ''dark'')
      in if isDark then injectPropsLines darkSvgMarkup else injectPropsLines lightSvgMarkup)"

text \<open>Lines 292 to 299; this component has no \<open>mounted\<close> state.\<close>

definition renderThemedWordmark :: "string \<Rightarrow> string \<Rightarrow> string \<Rightarrow> string" where
  "renderThemedWordmark resolvedTheme lightWordmarkMarkup darkWordmarkMarkup =
     (let isDark = (resolvedTheme = ''dark'')
      in if isDark then injectProps darkWordmarkMarkup else injectProps lightWordmarkMarkup)"

subsection \<open>One descriptor\<close>

text \<open>Lines 148 to 222: the text of the base component, or what a failed fetch throws.\<close>

definition componentContent :: "env \<Rightarrow> string \<Rightarrow> source \<Rightarrow> error + string" where
  "componentContent e cname r =
     (case r of
        Single loc \<Rightarrow>
          (case fetch e loc of
             None \<Rightarrow> Inl FetchError
           | Some svgContent \<Rightarrow> Inr (singleTemplate cname (extractSvgContent svgContent)))
      | Themed l d \<Rightarrow>
          (case fetch e l of
             None \<Rightarrow> Inl FetchError
           | Some lightSvgContent \<Rightarrow>
               (case fetch e d of
                  None \<Rightarrow> Inl FetchError
                | Some darkSvgContent \<Rightarrow>
                    Inr (themedTemplate cname (extractSvgContent lightSvgContent)
                           (extractSvgContent darkSvgContent)))))"

text \<open>Lines 238 to 302, for the wordmark.\<close>

definition wordmarkContent :: "env \<Rightarrow> string \<Rightarrow> source \<Rightarrow> error + string" where
  "wordmarkContent e cname w =
     (case w of
        Single loc \<Rightarrow>
          (case fetch e loc of
             None \<Rightarrow> Inl FetchError
           | Some wordmarkSvgContent \<Rightarrow>
               Inr (wordmarkTemplate cname (extractSvgContent wordmarkSvgContent)))
      | Themed l d \<Rightarrow>
          (case fetch e l of
             None \<Rightarrow> Inl FetchError
           | Some lightWordmarkContent \<Rightarrow>
               (case fetch e d of
                  None \<Rightarrow> Inl FetchError
                | Some darkWordmarkContent \<Rightarrow>
                    Inr (themedWordmarkTemplate cname (extractSvgContent lightWordmarkContent)
                           (extractSvgContent darkWordmarkContent)))))"

text \<open>\<open>if (svg.wordmark)\<close>: an absent wordmark and the empty string are falsy.\<close>

fun truthy :: "source option \<Rightarrow> source option" where
  "truthy None = None"
| "truthy (Some (Single loc)) = (if loc = [] then None else Some (Single loc))"
| "truthy (Some (Themed l d)) = Some (Themed l d)"

text \<open>\<open>typeof r === 'string'\<close>.\<close>

definition isString :: "source \<Rightarrow> bool" where
  "isString r = (case r of Single loc \<Rightarrow> True | Themed l d \<Rightarrow> False)"

text \<open>The entries pushed at lines 230 and 313.\<close>

definition baseRecord :: "iSVG \<Rightarrow> component" where
  "baseRecord svg =
     \<lparr>name = componentName (title svg), fileName = kebabName (title svg),
      hasDarkLight = (\<not> isString (route svg)), isWordmark = None\<rparr>"

definition wordmarkRecord :: "iSVG \<Rightarrow> source \<Rightarrow> component" where
  "wordmarkRecord svg w =
     \<lparr>name = componentName (title svg) @ ''Wordmark'',
      fileName = kebabName (title svg) @ ''-wordmark'',
      hasDarkLight = (\<not> isString w), isWordmark = Some True\<rparr>"

text \<open>The body of the \<open>try\<close> at lines 140 to 319: the state at its end, with the error
  that left it early, if one did.\<close>

definition tryCreate :: "env \<Rightarrow> gen_state \<Rightarrow> iSVG \<Rightarrow> error option \<times> gen_state" where
  "tryCreate e st svg =
     (case componentContent e (componentName (title svg)) (route svg) of
        Inl err \<Rightarrow> (Some err, st)
      | Inr content \<Rightarrow>
          (case writeFile e (files st) (kebabName (title svg) @ ''.tsx'') content of
             Inl err \<Rightarrow> (Some err, st)
           | Inr d1 \<Rightarrow>
               (let st1 = st\<lparr>files := d1,
                               createdComponents := createdComponents st @ [baseRecord svg]\<rparr>
                in case truthy (wordmark svg) of
                     None \<Rightarrow> (None, st1)
                   | Some w \<Rightarrow>
                       (case wordmarkContent e (componentName (title svg)) w of
                          Inl err \<Rightarrow> (Some err, st1)
                        | Inr wcontent \<Rightarrow>
                            (case writeFile e (files st1)
                                    (kebabName (title svg) @ ''-wordmark'' @ ''.tsx'') wcontent of
                               Inl err \<Rightarrow> (Some err, st1)
                             | Inr d2 \<Rightarrow>
                                 (None, st1\<lparr>files := d2,
                                              createdComponents :=
                                                createdComponents st1 @ [wordmarkRecord svg w]\<rparr>))))))"

text \<open>One turn of the loop at line 139, with its \<open>catch\<close>.\<close>

definition processSvg :: "env \<Rightarrow> gen_state \<Rightarrow> iSVG \<Rightarrow> gen_state" where
  "processSvg e st svg =
     (case tryCreate e st svg of
        (None, st') \<Rightarrow> st'
      | (Some err, st') \<Rightarrow> st'\<lparr>console := console st' @ [FailedToCreate (title svg) err]\<rparr>)"

subsection \<open>The aggregate export file\<close>

text \<open>A match of \<open>export const (\w+):\<close> at the start of the text, its group: the greedy
  \<open>\w+\<close> takes the whole run of word characters, and a colon must follow.\<close>

definition matchExportAt :: "string \<Rightarrow> string option" where
  "matchExportAt s =
     (if prefix ''export const '' s
      then (let r = drop 13 s; w = takeWhile isWordChar r; r' = dropWhile isWordChar r
            in if w \<noteq> [] \<and> r' \<noteq> [] \<and> hd r' = CHR '':'' then Some w else None)
      else None)"

text \<open>\<open>fileContent.match(/export const (\w+):/)\<close>: the group of the leftmost match.\<close>

fun exportName :: "string \<Rightarrow> string option" where
  "exportName [] = None"
| "exportName (c # cs) =
     (case matchExportAt (c # cs) of Some w \<Rightarrow> Some w | None \<Rightarrow> exportName cs)"

text \<open>One turn of the loop at line 333, on a directory entry (the name \<open>readdir\<close> gives
  and the text \<open>readFile\<close> gives for it).\<close>

definition scanFile :: "component list \<Rightarrow> string \<times> string \<Rightarrow> component list" where
  "scanFile allComponents entry =
     (let file = fst entry; fileContent = snd entry
      in if suffix ''.tsx'' file \<and> file \<noteq> ''index.tsx''
         then (let fname = replaceFirst ''.tsx'' [] file
               in case find (\<lambda>c. fileName c = fname) allComponents of
                    Some existingComp \<Rightarrow> allComponents
                  | None \<Rightarrow>
                      (case exportName fileContent of
                         None \<Rightarrow> allComponents
                       | Some n \<Rightarrow>
                           allComponents @
                           [\<lparr>name = n, fileName = fname,
                             hasDarkLight = sublist ''useTheme'' fileContent,
                             isWordmark = Some (sublist ''-wordmark'' fname)\<rparr>]))
         else allComponents)"

definition collectComponents :: "component list \<Rightarrow> dir \<Rightarrow> component list" where
  "collectComponents created d = foldl scanFile created d"

text \<open>The same turn with the throw of \<open>fs.readFile\<close> at line 343: the file is read only
  when it is a component file that no entry represents yet. \<open>None\<close> is the throw.\<close>

definition scanFileOrThrow ::
  "env \<Rightarrow> component list \<Rightarrow> string \<times> string \<Rightarrow> component list option" where
  "scanFileOrThrow e allComponents entry =
     (let file = fst entry
      in if suffix ''.tsx'' file \<and> file \<noteq> ''index.tsx''
            \<and> find (\<lambda>c. fileName c = replaceFirst ''.tsx'' [] file) allComponents = None
            \<and> readFails e file
         then None
         else Some (scanFile allComponents entry))"

text \<open>The loop of lines 333 to 358, left at the first read that throws.\<close>

fun scanAll :: "env \<Rightarrow> component list \<Rightarrow> dir \<Rightarrow> component list option" where
  "scanAll e allComponents [] = Some allComponents"
| "scanAll e allComponents (entry # d) =
     (case scanFileOrThrow e allComponents entry of
        None \<Rightarrow> None
      | Some allComponents' \<Rightarrow> scanAll e allComponents' d)"

text \<open>Lines 360 to 368.\<close>

definition importLine :: "component \<Rightarrow> string" where
  \<open>importLine c =
     ''import { '' @ name c @ '' } from './'' @ fileName c @ [CHR 0x27] @ '';''\<close>

definition indexContent :: "component list \<Rightarrow> string" where
  \<open>indexContent allComponents =
     nl @ lines
       [''import React from 'react';'',
        [],
        joinWith nl (map importLine allComponents),
        [],
        ''export {'',
        ''  '' @ joinWith ('','' @ nl @ ''  '') (map name allComponents),
        ''};'']\<close>

text \<open>The symbols that the export statement lists.\<close>

definition exportedSymbols :: "component list \<Rightarrow> string list" where
  "exportedSymbols allComponents = map name allComponents"

text \<open>Lines 128 to 382. \<open>Inl\<close> is the state in which something threw outside the
  loop, to be caught at line 383: \<open>fs.ensureDir\<close> before the loop, \<open>fs.readdir\<close>,
  \<open>fs.readFile\<close> or the write of the export file after it.\<close>

definition initState :: "dir \<Rightarrow> gen_state" where
  "initState d = \<lparr>files = d, createdComponents = [], console = []\<rparr>"

text \<open>The loop of lines 139 to 325.\<close>

definition runLoop :: "env \<Rightarrow> dir \<Rightarrow> iSVG list \<Rightarrow> gen_state" where
  "runLoop e d selectedSVGs = foldl (processSvg e) (initState d) selectedSVGs"

text \<open>\<open>allComponents\<close> after the loop of lines 333 to 358, when every read succeeds.\<close>

definition allComponentsOf :: "gen_state \<Rightarrow> component list" where
  "allComponentsOf st = collectComponents (createdComponents st) (files st)"

definition generate :: "env \<Rightarrow> dir \<Rightarrow> iSVG list \<Rightarrow> gen_state + gen_state" where
  "generate e d selectedSVGs =
     (if ensureDirFails e then Inl (initState d)
      else
        (let st = runLoop e d selectedSVGs
         in if readdirFails e then Inl st
            else
              (case scanAll e (createdComponents st) (files st) of
                 None \<Rightarrow> Inl st
               | Some allComponents \<Rightarrow>
                   (case writeFile e (files st) ''index.tsx'' (indexContent allComponents) of
                      Inl err \<Rightarrow> Inl st
                    | Inr d' \<Rightarrow>
                        Inr (st\<lparr>files := d',
                                console := console st @
                                  [Succeed (length (createdComponents st))
                                     (length allComponents),
                                   Usage (case createdComponents st of
                                            [] \<Rightarrow> ''ComponentName''
                                          | c # cs \<Rightarrow>
                                              if name c = [] then ''ComponentName''
                                              else name c)]\<rparr>)))))"

section \<open>The command\<close>

text \<open>Lines 127 to 382, with the \<open>catch\<close> of line 383 for what \<open>generate\<close> throws.\<close>

definition createComponents ::
  "env \<Rightarrow> dir \<Rightarrow> console_msg list \<Rightarrow> iSVG list \<Rightarrow> dir \<times> console_msg list" where
  "createComponents e d msgs selectedSVGs =
     (if selectedSVGs \<noteq> []
      then (case generate e d selectedSVGs of
              Inr st \<Rightarrow> (files st, msgs @ console st)
            | Inl st \<Rightarrow> (files st, msgs @ console st @ [FailedToFetchOrProcess]))
      else (d, msgs))"

text \<open>\<open>add\<close>, lines 28 to 386: the directory and the console it leaves.\<close>

definition add :: "env \<Rightarrow> string list \<Rightarrow> dir \<Rightarrow> dir \<times> console_msg list" where
  "add e args d =
     (case catalog e of
        None \<Rightarrow> (d, [FailedToFetchOrProcess])
      | Some svgs \<Rightarrow>
          if svgs = [] then (d, [NoSVGsFound])
          else if args \<noteq> []
          then (let selectedSVGs = selectExact svgs args
                in if selectedSVGs = []
                   then (d, [NoneOfRequestedFound,
                             AvailableSVGs
                               (joinWith '', '' (map (\<lambda>svg. kebabName (title svg)) (take 10 svgs))
                                @ ''...'')])
                   else createComponents e d
                          (FoundExactMatches (length selectedSVGs) (map title selectedSVGs)
                           # (if notFound args selectedSVGs \<noteq> []
                              then [CouldNotFind (notFound args selectedSVGs)] else []))
                          selectedSVGs)
          else (case prompt e svgs of
                  None \<Rightarrow> (d, [PromptShown, FailedToFetchOrProcess])
                | Some selected \<Rightarrow> createComponents e d [PromptShown] selected))"

section \<open>Properties in the words of the specification\<close>

text \<open>The directory after the writes \<open>ws\<close>, made in their order.\<close>

definition writeAll :: "dir \<Rightarrow> (string \<times> string) list \<Rightarrow> dir" where
  "writeAll d ws = foldl (\<lambda>d' w. AList.update (fst w) (snd w) d') d ws"

text \<open>A text of the form \<open>key="..."\<close>, with no double quote between the two.\<close>

definition attrText :: "string \<Rightarrow> string \<Rightarrow> bool" where
  "attrText key m =
     (\<exists>v. m = key @ [CHR ''='', CHR 0x22] @ v @ [CHR 0x22] \<and> CHR 0x22 \<notin> set v)"

text \<open>\<open>r\<close> is \<open>t\<close> without the leftmost such text, or \<open>t\<close> itself when it holds none.\<close>

definition firstMatchRemoved :: "string \<Rightarrow> string \<Rightarrow> string \<Rightarrow> bool" where
  "firstMatchRemoved key t r =
     ((\<exists>pre m post. t = pre @ m @ post \<and> attrText key m
         \<and> (\<forall>pre' m' post'. t = pre' @ m' @ post' \<and> attrText key m'
                \<longrightarrow> length pre \<le> length pre')
         \<and> r = pre @ post)
      \<or> ((\<forall>pre m post. t = pre @ m @ post \<longrightarrow> \<not> attrText key m) \<and> r = t))"

text \<open>The directory holds, besides its export file, the component files of the records
  \<open>rs\<close>, in their order: each under its slug, declaring its symbol. The slugs are distinct
  and hold no dot.\<close>

definition holdsComponents :: "dir \<Rightarrow> component list \<Rightarrow> bool" where
  "holdsComponents d rs =
     (list_all2 (\<lambda>entry r. fst entry = fileName r @ ''.tsx''
                            \<and> exportName (snd entry) = Some (name r))
        (filter (\<lambda>entry. fst entry \<noteq> ''index.tsx'') d) rs
      \<and> distinct (map fileName rs)
      \<and> (\<forall>r\<in>set rs. CHR ''.'' \<notin> set (fileName r)))"

section \<open>Example inputs\<close>

definition icon :: "string \<Rightarrow> source \<Rightarrow> source option \<Rightarrow> iSVG" where
  "icon t r w =
     \<lparr>svgId = None, title = t, category = [], route = r, wordmark = w, brandUrl = None,
      url = []\<rparr>"

text \<open>A network on which every locator answers but \<open>missing.svg\<close>, with a markup of
  its own for \<open>acme-dark.svg\<close>, a catalog of two icons,
  a user who selects everything, and a disk on which nothing fails.\<close>

definition exampleEnv :: env where
  \<open>exampleEnv =
     \<lparr>catalog = Some [icon ''GitHub'' (Single ''github.svg'') None,
                      icon ''GitHub Copilot'' (Single ''copilot.svg'') None],
      fetch = (\<lambda>loc. if loc = ''missing.svg'' then None
                     else if loc = ''acme-dark.svg''
                     then Some ''<svg><path fill="white"/></svg>''
                     else Some ''<svg width="24" height="24"><path/></svg>''),
      prompt = (\<lambda>svgs. Some svgs),
      writeFails = (\<lambda>path. False),
      ensureDirFails = False,
      readdirFails = False,
      readFails = (\<lambda>file. False)\<rparr>\<close>

text \<open>An icon with a themed wordmark, the same icon without the wordmark, and one whose
  wordmark cannot be fetched.\<close>

definition acme :: iSVG where
  "acme = icon ''Acme Inc'' (Single ''acme.svg'')
            (Some (Themed ''acme-light.svg'' ''acme-dark.svg''))"

definition plainAcme :: iSVG where
  "plainAcme = icon ''Acme Inc'' (Single ''acme.svg'') None"

definition halfAcme :: iSVG where
  "halfAcme = icon ''Acme Inc'' (Single ''acme.svg'') (Some (Single ''missing.svg''))"

text \<open>An icon whose only locator cannot be fetched, and one that can.\<close>

definition broken :: iSVG where
  "broken = icon ''Broken'' (Single ''missing.svg'') None"

definition github :: iSVG where
  "github = icon ''GitHub'' (Single ''github.svg'') None"





section \<open>The file slug\<close>

lemma toLowerChar_fixed: "isLowerAlnum c \<or> c = CHR ''-'' \<Longrightarrow> toLowerChar c = c"
  by (auto simp: isLowerAlnum_def toLowerChar_def Let_def)

lemma toLowerCase_fixed:
  "\<forall>c\<in>set s. isLowerAlnum c \<or> c = CHR ''-'' \<Longrightarrow> toLowerCase s = s"
  by (induction s) (simp_all add: toLowerCase_def toLowerChar_fixed)

lemma toLowerChar_idem: "toLowerChar (toLowerChar c) = toLowerChar c"
  by (auto simp: toLowerChar_def Let_def)

lemma toLowerCase_idem: "toLowerCase (toLowerCase s) = toLowerCase s"
  by (simp add: toLowerCase_def toLowerChar_idem)

lemma collapseRuns_chars: "c \<in> set (collapseRuns s) \<Longrightarrow> isLowerAlnum c \<or> c = CHR ''-''"
  by (induction s rule: collapseRuns.induct) (auto split: if_splits)

lemma dash_not_alnum: "\<not> isLowerAlnum CHR ''-''"
  by (simp add: isLowerAlnum_def)

lemma collapseRuns_after_run:
  assumes "collapseRuns (dropWhile (\<lambda>d. \<not> isLowerAlnum d) cs) = x # r"
  shows "isLowerAlnum x"
proof -
  define d where "d = dropWhile (\<lambda>d. \<not> isLowerAlnum d) cs"
  have "d = [] \<or> isLowerAlnum (hd d)"
    unfolding d_def using hd_dropWhile [of "\<lambda>d. \<not> isLowerAlnum d" cs] by blast
  moreover have "collapseRuns d = x # r"
    using assms by (simp only: d_def)
  ultimately show ?thesis
    by (cases d) (auto split: if_splits)
qed

lemma singleSeparators_Cons:
  "singleSeparators (a # r) \<longleftrightarrow>
     (r = [] \<or> a \<noteq> CHR ''-'' \<or> hd r \<noteq> CHR ''-'') \<and> singleSeparators r"
  by (cases r) auto

lemma collapseRuns_single: "singleSeparators (collapseRuns s)"
proof (induction s rule: collapseRuns.induct)
  case 1
  show ?case by simp
next
  case (2 c cs)
  show ?case
  proof (cases "isLowerAlnum c")
    case True
    with 2 dash_not_alnum show ?thesis
      by (auto simp: singleSeparators_Cons)
  next
    case False
    let ?r = "collapseRuns (dropWhile (\<lambda>d. \<not> isLowerAlnum d) cs)"
    have "?r = [] \<or> hd ?r \<noteq> CHR ''-''"
      using collapseRuns_after_run [of cs] dash_not_alnum by (cases ?r) auto
    with False 2 show ?thesis
      by (auto simp: singleSeparators_Cons)
  qed
qed

lemma collapseRuns_fixed:
  "\<forall>c\<in>set s. isLowerAlnum c \<or> c = CHR ''-'' \<Longrightarrow> singleSeparators s \<Longrightarrow> collapseRuns s = s"
proof (induction s)
  case Nil
  show ?case by simp
next
  case (Cons c cs)
  then have ih: "collapseRuns cs = cs"
    by (simp add: singleSeparators_Cons)
  show ?case
  proof (cases "isLowerAlnum c")
    case True
    with ih show ?thesis by simp
  next
    case False
    with Cons.prems have c: "c = CHR ''-''" by simp
    with Cons.prems have "cs = [] \<or> isLowerAlnum (hd cs)"
      by (cases cs) auto
    then have "dropWhile (\<lambda>d. \<not> isLowerAlnum d) cs = cs"
      by (cases cs) auto
    with False c ih show ?thesis by simp
  qed
qed

lemma singleSeparators_butlast: "singleSeparators s \<Longrightarrow> singleSeparators (butlast s)"
  by (induction s rule: singleSeparators.induct) (auto simp: singleSeparators_Cons)

lemma singleSeparators_last2:
  "singleSeparators (b @ [x, y]) \<Longrightarrow> x \<noteq> CHR ''-'' \<or> y \<noteq> CHR ''-''"
  by (induction b) (auto simp: singleSeparators_Cons)

lemma trimDash_set: "set (trimDash s) \<subseteq> set s"
  by (auto simp: trimDash_def Let_def split: list.splits if_splits dest: in_set_butlastD)

lemma trimDash_single: "singleSeparators s \<Longrightarrow> singleSeparators (trimDash s)"
  by (auto simp: trimDash_def Let_def singleSeparators_Cons singleSeparators_butlast
      split: list.splits)

lemma butlast_ends:
  assumes "singleSeparators s1" "s1 \<noteq> []" "last s1 = CHR ''-''" "hd s1 \<noteq> CHR ''-''"
    "butlast s1 \<noteq> []"
  shows "hd (butlast s1) \<noteq> CHR ''-'' \<and> last (butlast s1) \<noteq> CHR ''-''"
proof -
  from assms(2,5) obtain b x where s1: "s1 = b @ [x, last s1]"
    by (metis append_butlast_last_id append.assoc append_Cons append_Nil)
  with assms(1,3) have "x \<noteq> CHR ''-''"
    using singleSeparators_last2 [of b x "last s1"] by auto
  moreover from s1 have "butlast s1 = b @ [x]"
    by (metis butlast_append butlast.simps(2) list.distinct(1) append_Cons append_Nil
        butlast_snoc append.assoc)
  moreover have "hd (butlast s1) = hd s1"
    using assms(5) by (cases s1) auto
  ultimately show ?thesis using assms(4) by simp
qed

lemma trimDash_ends:
  assumes "singleSeparators s" "trimDash s \<noteq> []"
  shows "hd (trimDash s) \<noteq> CHR ''-'' \<and> last (trimDash s) \<noteq> CHR ''-''"
proof -
  define s1 where "s1 = (case s of [] \<Rightarrow> [] | c # cs \<Rightarrow> if c = CHR ''-'' then cs else s)"
  have t: "trimDash s = (if s1 \<noteq> [] \<and> last s1 = CHR ''-'' then butlast s1 else s1)"
    by (simp add: trimDash_def s1_def)
  have single: "singleSeparators s1"
    using assms(1) by (auto simp: s1_def singleSeparators_Cons split: list.splits)
  have ne: "s1 \<noteq> []" using assms(2) t by (auto split: if_splits)
  have h: "hd s1 \<noteq> CHR ''-''"
    using assms(1) ne by (auto simp: s1_def singleSeparators_Cons split: list.splits if_splits)
  show ?thesis
  proof (cases "last s1 = CHR ''-''")
    case True
    with t ne have "trimDash s = butlast s1" by simp
    with butlast_ends [OF single ne True h] assms(2) show ?thesis by simp
  next
    case False
    with t have "trimDash s = s1" by simp
    with h False show ?thesis by simp
  qed
qed

lemma trimDash_fixed: "s = [] \<or> (hd s \<noteq> CHR ''-'' \<and> last s \<noteq> CHR ''-'') \<Longrightarrow> trimDash s = s"
  by (cases s) (auto simp: trimDash_def)

text \<open>
  C5. The file slug of a title is a function of the title alone, deriving the slug of a
  slug gives the slug back, and a slug consists of the characters \<open>a-z\<close>, \<open>0-9\<close> and
  the separator, with no two separators in a row and none at either end.
\<close>

theorem kebabName_idempotent:
  "kebabName (kebabName t) = kebabName t
   \<and> (\<forall>c\<in>set (kebabName t). isLowerAlnum c \<or> c = CHR ''-'')
   \<and> singleSeparators (kebabName t)
   \<and> (kebabName t \<noteq> [] \<longrightarrow> hd (kebabName t) \<noteq> CHR ''-'' \<and> last (kebabName t) \<noteq> CHR ''-'')"
proof -
  let ?k = "kebabName t"
  have chars: "\<forall>c\<in>set ?k. isLowerAlnum c \<or> c = CHR ''-''"
    using trimDash_set [of "collapseRuns (toLowerCase t)"] collapseRuns_chars
    unfolding kebabName_def by blast
  have single: "singleSeparators ?k"
    unfolding kebabName_def by (rule trimDash_single) (rule collapseRuns_single)
  have ends: "?k \<noteq> [] \<longrightarrow> hd ?k \<noteq> CHR ''-'' \<and> last ?k \<noteq> CHR ''-''"
    unfolding kebabName_def using trimDash_ends [OF collapseRuns_single] by blast
  have "kebabName ?k = trimDash (collapseRuns ?k)"
    using toLowerCase_fixed [OF chars] by (simp add: kebabName_def)
  also have "\<dots> = trimDash ?k"
    using collapseRuns_fixed [OF chars single] by simp
  also have "\<dots> = ?k"
    using ends by (intro trimDash_fixed) blast
  finally show ?thesis using chars single ends by blast
qed

lemma kebabName_example: "kebabName ''  GitHub -- Copilot!'' = ''github-copilot''"
  by (simp add: kebabName_def toLowerCase_def toLowerChar_def isLowerAlnum_def trimDash_def
      char_of_eq_iff)

theorem kebabName_idempotent_witness:
  "kebabName ''github-copilot'' = ''github-copilot''
   \<and> singleSeparators ''github-copilot''
   \<and> hd ''github-copilot'' \<noteq> CHR ''-'' \<and> last ''github-copilot'' \<noteq> CHR ''-''"
  using kebabName_idempotent [of "''  GitHub -- Copilot!''"]
  unfolding kebabName_example by simp

section \<open>Exact-match selection\<close>

lemma selectExact_member:
  "svg \<in> set (selectExact svgs args) \<longleftrightarrow>
     svg \<in> set svgs \<and>
     (\<exists>a\<in>set args. kebabName (title svg) = toLowerCase a
                    \<or> toLowerCase (title svg) = toLowerCase a)"
  by (auto simp: selectExact_def requestedNames_def list_ex_iff Let_def toLowerCase_idem)

lemma selectExact_github:
  "selectExact [icon ''GitHub'' (Single ''github.svg'') None,
                icon ''GitHub Copilot'' (Single ''copilot.svg'') None] [''github'']
   = [icon ''GitHub'' (Single ''github.svg'') None]"
  by (simp add: selectExact_def requestedNames_def icon_def kebabName_def toLowerCase_def
      toLowerChar_def isLowerAlnum_def trimDash_def char_of_eq_iff)

text \<open>
  C3. In exact-match mode an icon of the catalog is selected if and only if some token,
  lowercased, equals the icon's file slug or its lowercased title, as a whole: the token
  \<open>github\<close> selects the entry titled \<open>GitHub\<close> and not the one titled
  \<open>GitHub Copilot\<close>.
\<close>

theorem selectExact_iff:
  "(svg \<in> set (selectExact svgs args) \<longleftrightarrow>
      svg \<in> set svgs \<and>
      (\<exists>a\<in>set args. kebabName (title svg) = toLowerCase a
                     \<or> toLowerCase (title svg) = toLowerCase a))
   \<and> selectExact [icon ''GitHub'' (Single ''github.svg'') None,
                  icon ''GitHub Copilot'' (Single ''copilot.svg'') None] [''github'']
     = [icon ''GitHub'' (Single ''github.svg'') None]"
  using selectExact_member selectExact_github by blast

theorem selectExact_iff_witness:
  "icon ''GitHub Copilot'' (Single ''copilot.svg'') None
     \<notin> set (selectExact [icon ''GitHub'' (Single ''github.svg'') None,
                          icon ''GitHub Copilot'' (Single ''copilot.svg'') None] [''github''])"
proof -
  have "\<not> (\<exists>a\<in>set [''github''].
            kebabName (title (icon ''GitHub Copilot'' (Single ''copilot.svg'') None))
              = toLowerCase a
            \<or> toLowerCase (title (icon ''GitHub Copilot'' (Single ''copilot.svg'') None))
              = toLowerCase a)"
    by (simp add: icon_def kebabName_def toLowerCase_def toLowerChar_def isLowerAlnum_def
        trimDash_def char_of_eq_iff)
  then show ?thesis
    using selectExact_iff [of "icon ''GitHub Copilot'' (Single ''copilot.svg'') None"
        "[icon ''GitHub'' (Single ''github.svg'') None,
          icon ''GitHub Copilot'' (Single ''copilot.svg'') None]" "[''github'']"]
    by blast
qed

text \<open>
  C9. The pass that reports unmatched tokens agrees with the selection filter: a token is
  reported as not found if and only if the filter, run on that token alone, selects no
  icon of the catalog.
\<close>

theorem notFound_iff:
  "a \<in> set args \<Longrightarrow>
     (toLowerCase a \<in> set (notFound args (selectExact svgs args))
      \<longleftrightarrow> selectExact svgs [a] = [])"
proof -
  assume a: "a \<in> set args"
  have found: "toLowerCase a \<in> set (foundNames (selectExact svgs args)) \<longleftrightarrow>
      (\<exists>svg\<in>set svgs. kebabName (title svg) = toLowerCase a
                       \<or> toLowerCase (title svg) = toLowerCase a)"
  proof
    assume "toLowerCase a \<in> set (foundNames (selectExact svgs args))"
    then show "\<exists>svg\<in>set svgs. kebabName (title svg) = toLowerCase a
                       \<or> toLowerCase (title svg) = toLowerCase a"
      by (auto simp: foundNames_def selectExact_member)
  next
    assume "\<exists>svg\<in>set svgs. kebabName (title svg) = toLowerCase a
                       \<or> toLowerCase (title svg) = toLowerCase a"
    then obtain svg where svg: "svg \<in> set svgs"
      "kebabName (title svg) = toLowerCase a \<or> toLowerCase (title svg) = toLowerCase a"
      by blast
    with a have "svg \<in> set (selectExact svgs args)"
      unfolding selectExact_member by blast
    with svg(2) show "toLowerCase a \<in> set (foundNames (selectExact svgs args))"
      unfolding foundNames_def by force
  qed
  have "toLowerCase a \<in> set (notFound args (selectExact svgs args)) \<longleftrightarrow>
      toLowerCase a \<notin> set (foundNames (selectExact svgs args))"
    using a by (auto simp: notFound_def requestedNames_def list_ex_iff toLowerCase_idem)
  also have "\<dots> \<longleftrightarrow> (\<forall>svg\<in>set svgs. svg \<notin> set (selectExact svgs [a]))"
    unfolding found selectExact_member by auto
  also have "\<dots> \<longleftrightarrow> selectExact svgs [a] = []"
    by (auto simp: selectExact_def filter_empty_conv)
  finally show ?thesis .
qed

theorem notFound_iff_witness:
  "''nope'' \<in> set [''github'', ''nope'']
   \<and> toLowerCase ''nope''
       \<in> set (notFound [''github'', ''nope'']
                (selectExact [icon ''GitHub'' (Single ''github.svg'') None,
                              icon ''GitHub Copilot'' (Single ''copilot.svg'') None]
                   [''github'', ''nope'']))"
proof -
  have m: "''nope'' \<in> set [''github'', ''nope'']" by simp
  have "selectExact [icon ''GitHub'' (Single ''github.svg'') None,
                     icon ''GitHub Copilot'' (Single ''copilot.svg'') None] [''nope''] = []"
    by (simp add: selectExact_def requestedNames_def icon_def kebabName_def toLowerCase_def
        toLowerChar_def isLowerAlnum_def trimDash_def char_of_eq_iff)
  with notFound_iff [OF m] m show ?thesis by blast
qed

section \<open>The catalog\<close>

text \<open>
  C8. When the catalog request fails, or answers with an empty list, the command stops
  with one message on the console, before any selection (no prompt, no match report), and
  leaves the directory as it was.
\<close>

theorem add_without_catalog:
  "catalog e = None \<or> catalog e = Some [] \<Longrightarrow>
     add e args d =
       (d, [if catalog e = None then FailedToFetchOrProcess else NoSVGsFound])"
  by (auto simp: add_def)

theorem add_without_catalog_witness:
  "add (exampleEnv\<lparr>catalog := Some []\<rparr>) [''github''] [(''old.tsx'', ''text'')]
     = ([(''old.tsx'', ''text'')], [NoSVGsFound])
   \<and> add (exampleEnv\<lparr>catalog := None\<rparr>) [] [(''old.tsx'', ''text'')]
     = ([(''old.tsx'', ''text'')], [FailedToFetchOrProcess])"
proof -
  have 1: "catalog (exampleEnv\<lparr>catalog := Some []\<rparr>) = None
           \<or> catalog (exampleEnv\<lparr>catalog := Some []\<rparr>) = Some []" by simp
  have 2: "catalog (exampleEnv\<lparr>catalog := None\<rparr>) = None
           \<or> catalog (exampleEnv\<lparr>catalog := None\<rparr>) = Some []" by simp
  from add_without_catalog [OF 1] add_without_catalog [OF 2] show ?thesis by simp
qed


section \<open>One descriptor\<close>

lemma lines_Cons: "lines (l # ls) = l @ nl @ lines ls"
  by (simp add: lines_def)

lemma sublist_lines_skip: "sublist x (lines ls) \<Longrightarrow> sublist x (lines (l # ls))"
  unfolding lines_Cons by (metis append.assoc sublist_append_leftI sublist_order.order_trans)

lemma sublist_lines_two: "sublist (l1 @ nl @ l2) (lines (l1 # l2 # ls))"
  unfolding lines_Cons by (metis append.assoc sublist_append_rightI)

lemma sublist_lines_prefix: "prefix x l \<Longrightarrow> sublist x (lines (l # ls))"
  unfolding lines_Cons by (metis prefix_imp_sublist prefix_prefix)

lemma wordmarkTemplate_defaults:
  "sublist (''  width = 100,'' @ nl @ ''  height = 24,'') (wordmarkTemplate cname m)"
  unfolding wordmarkTemplate_def by (rule sublist_lines_two | rule sublist_lines_skip)+

lemma wordmarkTemplate_symbol:
  "sublist (''export const '' @ cname @ ''Wordmark: '') (wordmarkTemplate cname m)"
  unfolding wordmarkTemplate_def
  by ((rule sublist_lines_prefix, (simp; fail)) | rule sublist_lines_skip)+

lemma themedWordmarkTemplate_defaults:
  "sublist (''  width = 100,'' @ nl @ ''  height = 24,'') (themedWordmarkTemplate cname l d)"
  unfolding themedWordmarkTemplate_def by (rule sublist_lines_two | rule sublist_lines_skip)+

lemma themedWordmarkTemplate_symbol:
  "sublist (''export const '' @ cname @ ''Wordmark: '') (themedWordmarkTemplate cname l d)"
  unfolding themedWordmarkTemplate_def
  by ((rule sublist_lines_prefix, (simp; fail)) | rule sublist_lines_skip)+

lemma wordmarkContent_defaults:
  assumes "wordmarkContent e cname w = Inr wcontent"
  shows "sublist (''  width = 100,'' @ nl @ ''  height = 24,'') wcontent"
    and "sublist (''export const '' @ cname @ ''Wordmark: '') wcontent"
  using assms wordmarkTemplate_defaults wordmarkTemplate_symbol
    themedWordmarkTemplate_defaults themedWordmarkTemplate_symbol
  by (auto simp: wordmarkContent_def split: source.splits option.splits)

lemma processSvg_complete:
  assumes "componentContent e (componentName (title svg)) (route svg) = Inr content"
    and "\<not> writeFails e (kebabName (title svg) @ ''.tsx'')"
    and "truthy (wordmark svg) = Some w"
    and "wordmarkContent e (componentName (title svg)) w = Inr wcontent"
    and "\<not> writeFails e (kebabName (title svg) @ ''-wordmark.tsx'')"
  shows "processSvg e st svg =
           st\<lparr>files := AList.update (kebabName (title svg) @ ''-wordmark.tsx'') wcontent
                          (AList.update (kebabName (title svg) @ ''.tsx'') content (files st)),
               createdComponents := createdComponents st @
                 [baseRecord svg, wordmarkRecord svg w]\<rparr>"
  using assms by (simp add: processSvg_def tryCreate_def writeFile_def)

lemma processSvg_plain:
  assumes "componentContent e (componentName (title svg)) (route svg) = Inr content"
    and "\<not> writeFails e (kebabName (title svg) @ ''.tsx'')"
  shows "processSvg e st (svg\<lparr>wordmark := None\<rparr>) =
           st\<lparr>files := AList.update (kebabName (title svg) @ ''.tsx'') content (files st),
               createdComponents := createdComponents st @ [baseRecord svg]\<rparr>"
  using assms by (simp add: processSvg_def tryCreate_def writeFile_def baseRecord_def)

lemma singleTemplate_defaults:
  "sublist (''  width = 24,'' @ nl @ ''  height = 24,'') (singleTemplate cname m)"
  unfolding singleTemplate_def by (rule sublist_lines_two | rule sublist_lines_skip)+

lemma themedTemplate_defaults:
  "sublist (''  width = 24,'' @ nl @ ''  height = 24,'') (themedTemplate cname l d)"
  unfolding themedTemplate_def by (rule sublist_lines_two | rule sublist_lines_skip)+

lemma componentContent_defaults:
  assumes "componentContent e cname r = Inr content"
  shows "sublist (''  width = 24,'' @ nl @ ''  height = 24,'') content"
  using assms singleTemplate_defaults themedTemplate_defaults
  by (auto simp: componentContent_def split: source.splits option.splits)

text \<open>
  C6, as the code has it. An icon with a wordmark gives one artifact beyond its base
  component: where the same icon without the wordmark leaves the base file and the base
  record, the icon with it leaves these and one component file more, at
  \<open><slug>-wordmark\<close>, which declares the symbol \<open><Symbol>Wordmark\<close> with the defaults
  \<open>width = 100\<close> and \<open>height = 24\<close> (the base file has 24 and 24), and one record more,
  with the wordmark flag set; the base record carries the slug itself and no flag. The
  wordmark is one that the code's test \<open>if (svg.wordmark)\<close> accepts, and the fetches and
  writes of the item succeed.
\<close>

theorem wordmark_artifacts:
  assumes "componentContent e (componentName (title svg)) (route svg) = Inr content"
    and "\<not> writeFails e (kebabName (title svg) @ ''.tsx'')"
    and "truthy (wordmark svg) = Some w"
    and "wordmarkContent e (componentName (title svg)) w = Inr wcontent"
    and "\<not> writeFails e (kebabName (title svg) @ ''-wordmark.tsx'')"
  shows "processSvg e st svg =
           st\<lparr>files := AList.update (kebabName (title svg) @ ''-wordmark.tsx'') wcontent
                          (AList.update (kebabName (title svg) @ ''.tsx'') content (files st)),
               createdComponents := createdComponents st @
                 [baseRecord svg,
                  \<lparr>name = componentName (title svg) @ ''Wordmark'',
                   fileName = kebabName (title svg) @ ''-wordmark'',
                   hasDarkLight = (\<not> isString w), isWordmark = Some True\<rparr>]\<rparr>
         \<and> processSvg e st (svg\<lparr>wordmark := None\<rparr>) =
           st\<lparr>files := AList.update (kebabName (title svg) @ ''.tsx'') content (files st),
               createdComponents := createdComponents st @ [baseRecord svg]\<rparr>
         \<and> fileName (baseRecord svg) = kebabName (title svg)
         \<and> isWordmark (baseRecord svg) = None
         \<and> sublist (''export const '' @ componentName (title svg) @ ''Wordmark: '') wcontent
         \<and> sublist (''  width = 100,'' @ nl @ ''  height = 24,'') wcontent
         \<and> sublist (''  width = 24,'' @ nl @ ''  height = 24,'') content"
  using processSvg_complete [OF assms] processSvg_plain [OF assms(1,2)]
    wordmarkContent_defaults [OF assms(4)] componentContent_defaults [OF assms(1)]
  by (simp add: wordmarkRecord_def baseRecord_def)

lemma acme_names:
  "kebabName ''Acme Inc'' = ''acme-inc''" "componentName ''Acme Inc'' = ''AcmeInc''"
  by (simp_all add: kebabName_def componentName_def toLowerCase_def toLowerChar_def
      isLowerAlnum_def isAlnum_def trimDash_def char_of_eq_iff)

theorem wordmark_artifacts_witness:
  "createdComponents (processSvg exampleEnv (initState []) acme) =
     [\<lparr>name = ''AcmeInc'', fileName = ''acme-inc'', hasDarkLight = False, isWordmark = None\<rparr>,
      \<lparr>name = ''AcmeIncWordmark'', fileName = ''acme-inc-wordmark'', hasDarkLight = True,
       isWordmark = Some True\<rparr>]
   \<and> map fst (files (processSvg exampleEnv (initState []) acme)) =
       [''acme-inc.tsx'', ''acme-inc-wordmark.tsx'']"
proof -
  obtain content where 1:
    "componentContent exampleEnv (componentName (title acme)) (route acme) = Inr content"
    by (simp add: componentContent_def exampleEnv_def acme_def icon_def)
  have 2: "\<not> writeFails exampleEnv (kebabName (title acme) @ ''.tsx'')"
    by (simp add: exampleEnv_def)
  have 3: "truthy (wordmark acme) = Some (Themed ''acme-light.svg'' ''acme-dark.svg'')"
    by (simp add: acme_def icon_def)
  obtain wcontent where 4:
    "wordmarkContent exampleEnv (componentName (title acme))
       (Themed ''acme-light.svg'' ''acme-dark.svg'') = Inr wcontent"
    by (simp add: wordmarkContent_def exampleEnv_def)
  have 5: "\<not> writeFails exampleEnv (kebabName (title acme) @ ''-wordmark.tsx'')"
    by (simp add: exampleEnv_def)
  have t: "title acme = ''Acme Inc''" "route acme = Single ''acme.svg''"
    by (simp_all add: acme_def icon_def)
  from wordmark_artifacts [OF 1 2 3 4 5, of "initState []"]
  show ?thesis
    by (simp add: t acme_names baseRecord_def isString_def initState_def)
qed

text \<open>
  C6 as stated fails: the wordmark of the icon below adds one component file and one
  record to what the same icon leaves without it, not two artifacts.
\<close>

theorem wordmark_adds_one_artifact:
  "map fst (files (processSvg exampleEnv (initState []) plainAcme)) = [''acme-inc.tsx'']
   \<and> map fst (files (processSvg exampleEnv (initState []) acme))
       = [''acme-inc.tsx'', ''acme-inc-wordmark.tsx'']
   \<and> map fileName (createdComponents (processSvg exampleEnv (initState []) plainAcme))
       = [''acme-inc'']
   \<and> map fileName (createdComponents (processSvg exampleEnv (initState []) acme))
       = [''acme-inc'', ''acme-inc-wordmark'']"
  by (simp add: processSvg_def tryCreate_def componentContent_def wordmarkContent_def
      exampleEnv_def acme_def plainAcme_def icon_def initState_def writeFile_def
      baseRecord_def wordmarkRecord_def isString_def acme_names)


section \<open>Failures\<close>

lemma processSvg_wordmark_fails:
  assumes "componentContent e (componentName (title svg)) (route svg) = Inr content"
    and "\<not> writeFails e (kebabName (title svg) @ ''.tsx'')"
    and "truthy (wordmark svg) = Some w"
    and "(\<exists>err. wordmarkContent e (componentName (title svg)) w = Inl err)
         \<or> writeFails e (kebabName (title svg) @ ''-wordmark.tsx'')"
  shows "\<exists>err. processSvg e st svg =
           st\<lparr>files := AList.update (kebabName (title svg) @ ''.tsx'') content (files st),
               createdComponents := createdComponents st @ [baseRecord svg],
               console := console st @ [FailedToCreate (title svg) err]\<rparr>"
proof (cases "wordmarkContent e (componentName (title svg)) w")
  case (Inl err)
  with assms(1-3) show ?thesis
    by (intro exI [of _ err]) (simp add: processSvg_def tryCreate_def writeFile_def Let_def)
next
  case (Inr wcontent)
  with assms(4) have "writeFails e (kebabName (title svg) @ ''-wordmark.tsx'')" by simp
  with Inr assms(1-3) show ?thesis
    by (intro exI [of _ WriteError])
      (simp add: processSvg_def tryCreate_def writeFile_def Let_def)
qed

text \<open>What a descriptor records and prints does not depend on the state it meets.\<close>

lemma processSvg_created:
  "createdComponents (processSvg e st svg) =
     createdComponents st @ createdComponents (processSvg e (initState []) svg)"
  by (simp add: processSvg_def tryCreate_def writeFile_def initState_def Let_def
      split: sum.splits option.splits)

lemma processSvg_console:
  "console (processSvg e st svg) = console st @ console (processSvg e (initState []) svg)"
  by (simp add: processSvg_def tryCreate_def writeFile_def initState_def Let_def
      split: sum.splits option.splits)

lemma foldl_processSvg_created:
  "createdComponents (foldl (processSvg e) st svgs) =
     createdComponents st
     @ concat (map (\<lambda>svg. createdComponents (processSvg e (initState []) svg)) svgs)"
proof (induction svgs arbitrary: st)
  case Nil
  show ?case by simp
next
  case (Cons svg svgs)
  show ?case
    by (simp add: Cons.IH processSvg_created [of e st svg])
qed

lemma foldl_processSvg_console:
  "console (foldl (processSvg e) st svgs) =
     console st @ concat (map (\<lambda>svg. console (processSvg e (initState []) svg)) svgs)"
proof (induction svgs arbitrary: st)
  case Nil
  show ?case by simp
next
  case (Cons svg svgs)
  show ?case
    by (simp add: Cons.IH processSvg_console [of e st svg])
qed

lemma runLoop_created:
  "createdComponents (runLoop e d svgs) =
     concat (map (\<lambda>svg. createdComponents (processSvg e (initState []) svg)) svgs)"
  by (simp add: runLoop_def foldl_processSvg_created initState_def)

lemma runLoop_console:
  "console (runLoop e d svgs) =
     concat (map (\<lambda>svg. console (processSvg e (initState []) svg)) svgs)"
  by (simp add: runLoop_def foldl_processSvg_console initState_def)

lemma processSvg_console_alone:
  "console (processSvg e (initState []) svg) =
     (case fst (tryCreate e (initState []) svg) of
        None \<Rightarrow> []
      | Some err \<Rightarrow> [FailedToCreate (title svg) err])"
  by (simp add: processSvg_def tryCreate_def writeFile_def initState_def Let_def
      split: sum.splits option.splits)

lemma processSvg_base_fails:
  "(\<exists>err. componentContent e (componentName (title svg)) (route svg) = Inl err)
   \<or> writeFails e (kebabName (title svg) @ ''.tsx'')
   \<Longrightarrow> createdComponents (processSvg e (initState []) svg) = []
       \<and> fst (tryCreate e (initState []) svg) \<noteq> None"
  by (auto simp: processSvg_def tryCreate_def writeFile_def initState_def
      split: sum.splits)

lemma processSvg_base_ok:
  assumes "componentContent e (componentName (title svg)) (route svg) = Inr content"
    and "\<not> writeFails e (kebabName (title svg) @ ''.tsx'')"
  shows "baseRecord svg \<in> set (createdComponents (processSvg e (initState []) svg))"
  using assms
  by (simp add: processSvg_def tryCreate_def writeFile_def initState_def Let_def
      split: sum.splits option.splits)

lemma scanFile_extends: "\<exists>new. scanFile allc entry = allc @ new"
  by (simp add: scanFile_def Let_def split: option.splits)

lemma collectComponents_extends: "\<exists>new. collectComponents created d = created @ new"
  unfolding collectComponents_def
proof (induction d arbitrary: created)
  case Nil
  show ?case by simp
next
  case (Cons entry d)
  obtain n1 where "scanFile created entry = created @ n1"
    using scanFile_extends by blast
  moreover obtain n2 where "foldl scanFile (created @ n1) d = (created @ n1) @ n2"
    using Cons.IH by blast
  ultimately show ?case by simp
qed

lemma created_in_allComponents:
  "c \<in> set (createdComponents st) \<Longrightarrow> c \<in> set (allComponentsOf st)"
  using collectComponents_extends [of "createdComponents st" "files st"]
  by (auto simp: allComponentsOf_def)

lemma map_of_update_same: "map_of (AList.update k v al) k = Some v"
  by (simp add: update_conv')

lemma scanAll_Some:
  "scanAll e acc d = Some allc \<Longrightarrow> allc = collectComponents acc d"
  unfolding collectComponents_def
  by (induction d arbitrary: acc)
    (auto simp: scanFileOrThrow_def Let_def split: option.splits if_splits)

lemma scanAll_reads:
  "\<forall>entry\<in>set d. \<not> readFails e (fst entry) \<Longrightarrow>
     scanAll e acc d = Some (collectComponents acc d)"
  unfolding collectComponents_def
  by (induction d arbitrary: acc) (simp_all add: scanFileOrThrow_def)

lemma generate_writes_index:
  assumes "\<not> ensureDirFails e" "\<not> readdirFails e"
    and "\<forall>entry\<in>set (files (runLoop e d svgs)). \<not> readFails e (fst entry)"
    and "\<not> writeFails e ''index.tsx''"
  shows "\<exists>st'. generate e d svgs = Inr st'
       \<and> map_of (files st') ''index.tsx''
           = Some (indexContent (allComponentsOf (runLoop e d svgs)))"
  using assms(1,2,4) scanAll_reads [OF assms(3)]
  by (simp add: generate_def writeFile_def Let_def map_of_update_same allComponentsOf_def)

lemma sublist_joinWith: "x \<in> set xs \<Longrightarrow> sublist x (joinWith sep xs)"
proof (induction sep xs rule: joinWith.induct)
  case (1 sep)
  then show ?case by simp
next
  case (2 sep y)
  then show ?case by simp
next
  case (3 sep y z zs)
  show ?case
  proof (cases "x = y")
    case True
    then show ?thesis by simp
  next
    case False
    with 3 have "sublist x (joinWith sep (z # zs))" by simp
    then have "sublist x ((y @ sep) @ joinWith sep (z # zs))"
      by (metis sublist_append_leftI sublist_order.order_trans)
    then show ?thesis by simp
  qed
qed

lemma sublist_append_left: "sublist x ys \<Longrightarrow> sublist x (zs @ ys)"
  by (metis sublist_append_leftI sublist_order.order_trans)

lemma sublist_lines_in: "sublist x l \<Longrightarrow> sublist x (lines (l # ls))"
  unfolding lines_Cons
  by (metis sublist_append_rightI sublist_order.order_trans)

lemma importLine_in_index:
  assumes "c \<in> set allc"
  shows "sublist (importLine c) (indexContent allc)"
proof -
  have j: "sublist (importLine c) (joinWith nl (map importLine allc))"
    using assms by (intro sublist_joinWith) simp
  have "sublist (importLine c)
      (lines [''import React from 'react';'', [], joinWith nl (map importLine allc), [],
              ''export {'',
              ''  '' @ joinWith ('','' @ nl @ ''  '') (map name allc), ''};''])"
    by (rule sublist_lines_skip, rule sublist_lines_skip, rule sublist_lines_in, rule j)
  then show ?thesis
    unfolding indexContent_def by (rule sublist_append_left)
qed

lemma runLoop_keeps_base:
  assumes "componentContent e (componentName (title svg)) (route svg) = Inr content"
    and "\<not> writeFails e (kebabName (title svg) @ ''.tsx'')"
    and "svg \<in> set svgs"
  shows "baseRecord svg \<in> set (createdComponents (runLoop e d svgs))"
  using processSvg_base_ok [OF assms(1,2)] assms(3)
  unfolding runLoop_created by auto

text \<open>
  C10. When the base component of a descriptor is fetched and written and its wordmark
  then fails (a fetch or the write), the item leaves the base file written and the base
  record in the tracking list, writes and records nothing for the wordmark, and prints the
  failure; the base record is among the records of the export file, which imports it.
\<close>

theorem wordmark_failure_keeps_base:
  assumes "componentContent e (componentName (title svg)) (route svg) = Inr content"
    and "\<not> writeFails e (kebabName (title svg) @ ''.tsx'')"
    and "truthy (wordmark svg) = Some w"
    and "(\<exists>err. wordmarkContent e (componentName (title svg)) w = Inl err)
         \<or> writeFails e (kebabName (title svg) @ ''-wordmark.tsx'')"
    and "svg \<in> set selectedSVGs"
  shows "(\<exists>err. processSvg e st svg =
            st\<lparr>files := AList.update (kebabName (title svg) @ ''.tsx'') content (files st),
                createdComponents := createdComponents st @ [baseRecord svg],
                console := console st @ [FailedToCreate (title svg) err]\<rparr>)
         \<and> baseRecord svg \<in> set (createdComponents (runLoop e d selectedSVGs))
         \<and> baseRecord svg \<in> set (allComponentsOf (runLoop e d selectedSVGs))
         \<and> sublist (importLine (baseRecord svg))
              (indexContent (allComponentsOf (runLoop e d selectedSVGs)))"
proof -
  have created: "baseRecord svg \<in> set (createdComponents (runLoop e d selectedSVGs))"
    by (rule runLoop_keeps_base [OF assms(1,2,5)])
  then have all: "baseRecord svg \<in> set (allComponentsOf (runLoop e d selectedSVGs))"
    by (rule created_in_allComponents)
  show ?thesis
    by (intro conjI processSvg_wordmark_fails [OF assms(1-4)] created all
        importLine_in_index [OF all])
qed

lemma github_names:
  "kebabName ''GitHub'' = ''github''" "componentName ''GitHub'' = ''GitHub''"
  "kebabName ''Broken'' = ''broken''" "componentName ''Broken'' = ''Broken''"
  by (simp_all add: kebabName_def componentName_def toLowerCase_def toLowerChar_def
      isLowerAlnum_def isAlnum_def trimDash_def char_of_eq_iff)

theorem wordmark_failure_keeps_base_witness:
  "createdComponents (processSvg exampleEnv (initState []) halfAcme) =
     [\<lparr>name = ''AcmeInc'', fileName = ''acme-inc'', hasDarkLight = False, isWordmark = None\<rparr>]
   \<and> map fst (files (processSvg exampleEnv (initState []) halfAcme)) = [''acme-inc.tsx'']"
proof -
  have t: "title halfAcme = ''Acme Inc''" "route halfAcme = Single ''acme.svg''"
    by (simp_all add: halfAcme_def icon_def)
  obtain content where 1:
    "componentContent exampleEnv (componentName (title halfAcme)) (route halfAcme)
       = Inr content"
    by (simp add: componentContent_def exampleEnv_def t)
  have 2: "\<not> writeFails exampleEnv (kebabName (title halfAcme) @ ''.tsx'')"
    by (simp add: exampleEnv_def)
  have 3: "truthy (wordmark halfAcme) = Some (Single ''missing.svg'')"
    by (simp add: halfAcme_def icon_def)
  have 4: "(\<exists>err. wordmarkContent exampleEnv (componentName (title halfAcme))
                    (Single ''missing.svg'') = Inl err)
           \<or> writeFails exampleEnv (kebabName (title halfAcme) @ ''-wordmark.tsx'')"
    by (simp add: wordmarkContent_def exampleEnv_def)
  have 5: "halfAcme \<in> set [halfAcme]" by simp
  from wordmark_failure_keeps_base [OF 1 2 3 4 5, of "initState []"]
  obtain err where "processSvg exampleEnv (initState []) halfAcme =
      (initState [])\<lparr>files := AList.update (kebabName (title halfAcme) @ ''.tsx'') content
                                 (files (initState [])),
                      createdComponents := createdComponents (initState []) @ [baseRecord halfAcme],
                      console := console (initState []) @ [FailedToCreate (title halfAcme) err]\<rparr>"
    by blast
  then show ?thesis
    by (simp add: t acme_names baseRecord_def isString_def initState_def)
qed

lemma writeAll_append: "writeAll d (ws @ ws') = writeAll (writeAll d ws) ws'"
  by (simp add: writeAll_def)

lemma wordmark_path_differs: "k @ ''.tsx'' \<noteq> k @ ''-wordmark.tsx''"
  by simp

text \<open>What a descriptor writes does not depend on the state it meets either.\<close>

lemma processSvg_files:
  "files (processSvg e st svg) = writeAll (files st) (files (processSvg e (initState []) svg))"
proof (cases "componentContent e (componentName (title svg)) (route svg)")
  case (Inl err)
  then show ?thesis
    by (simp add: processSvg_def tryCreate_def initState_def writeAll_def)
next
  case base: (Inr content)
  show ?thesis
  proof (cases "writeFails e (kebabName (title svg) @ ''.tsx'')")
    case True
    with base show ?thesis
      by (simp add: processSvg_def tryCreate_def writeFile_def initState_def writeAll_def)
  next
    case written: False
    show ?thesis
    proof (cases "truthy (wordmark svg)")
      case None
      with base written show ?thesis
        by (simp add: processSvg_def tryCreate_def writeFile_def initState_def writeAll_def)
    next
      case (Some w)
      show ?thesis
      proof (cases "wordmarkContent e (componentName (title svg)) w")
        case (Inl err)
        with base written Some show ?thesis
          by (simp add: processSvg_def tryCreate_def writeFile_def initState_def writeAll_def)
      next
        case wm: (Inr wcontent)
        with base written Some show ?thesis
          by (cases "writeFails e (kebabName (title svg) @ ''-wordmark.tsx'')")
            (simp_all add: processSvg_def tryCreate_def writeFile_def initState_def
              writeAll_def)
      qed
    qed
  qed
qed

lemma foldl_processSvg_files:
  "files (foldl (processSvg e) st svgs) =
     writeAll (files st) (concat (map (\<lambda>svg. files (processSvg e (initState []) svg)) svgs))"
proof (induction svgs arbitrary: st)
  case Nil
  show ?case by (simp add: writeAll_def)
next
  case (Cons svg svgs)
  show ?case
    by (simp add: Cons.IH writeAll_append processSvg_files [of e st svg])
qed

lemma runLoop_files:
  "files (runLoop e d svgs) =
     writeAll d (concat (map (\<lambda>svg. files (processSvg e (initState []) svg)) svgs))"
  by (simp add: runLoop_def foldl_processSvg_files initState_def)

lemma processSvg_base_fails_files:
  "(\<exists>err. componentContent e (componentName (title svg)) (route svg) = Inl err)
   \<or> writeFails e (kebabName (title svg) @ ''.tsx'')
   \<Longrightarrow> files (processSvg e (initState []) svg) = []"
  by (auto simp: processSvg_def tryCreate_def writeFile_def initState_def
      split: sum.splits)

lemma processSvg_wordmark_fails_alone:
  assumes "componentContent e (componentName (title svg)) (route svg) = Inr content"
    and "\<not> writeFails e (kebabName (title svg) @ ''.tsx'')"
    and "truthy (wordmark svg) = Some w"
    and "(\<exists>err. wordmarkContent e (componentName (title svg)) w = Inl err)
         \<or> writeFails e (kebabName (title svg) @ ''-wordmark.tsx'')"
  shows "createdComponents (processSvg e (initState []) svg) = [baseRecord svg]
         \<and> files (processSvg e (initState []) svg) = [(kebabName (title svg) @ ''.tsx'', content)]
         \<and> fst (tryCreate e (initState []) svg) \<noteq> None"
proof -
  from processSvg_wordmark_fails [OF assms, of "initState []"]
  have "createdComponents (processSvg e (initState []) svg) = [baseRecord svg]
        \<and> files (processSvg e (initState []) svg) = [(kebabName (title svg) @ ''.tsx'', content)]"
    by (auto simp: initState_def)
  moreover have "fst (tryCreate e (initState []) svg) \<noteq> None"
  proof (cases "wordmarkContent e (componentName (title svg)) w")
    case (Inl err)
    with assms(1-3) show ?thesis by (simp add: tryCreate_def writeFile_def)
  next
    case (Inr wcontent)
    with assms(4) have "writeFails e (kebabName (title svg) @ ''-wordmark.tsx'')" by simp
    with Inr assms(1-3) show ?thesis by (simp add: tryCreate_def writeFile_def)
  qed
  ultimately show ?thesis by simp
qed

lemma processSvg_unfailed:
  assumes "fst (tryCreate e (initState []) svg) = None"
  shows "\<exists>content. componentContent e (componentName (title svg)) (route svg) = Inr content
           \<and> (kebabName (title svg) @ ''.tsx'', content)
               \<in> set (files (processSvg e (initState []) svg))
           \<and> baseRecord svg \<in> set (createdComponents (processSvg e (initState []) svg))"
proof (cases "componentContent e (componentName (title svg)) (route svg)")
  case (Inl err)
  with assms show ?thesis by (simp add: tryCreate_def)
next
  case base: (Inr content)
  show ?thesis
  proof (cases "writeFails e (kebabName (title svg) @ ''.tsx'')")
    case True
    with base assms show ?thesis by (simp add: tryCreate_def writeFile_def)
  next
    case written: False
    show ?thesis
    proof (cases "truthy (wordmark svg)")
      case None
      with base written show ?thesis
        by (simp add: processSvg_def tryCreate_def writeFile_def initState_def)
    next
      case (Some w)
      show ?thesis
      proof (cases "wordmarkContent e (componentName (title svg)) w")
        case (Inl err)
        with base written Some assms show ?thesis
          by (simp add: tryCreate_def writeFile_def)
      next
        case wm: (Inr wcontent)
        with base written Some assms show ?thesis
          by (cases "writeFails e (kebabName (title svg) @ ''-wordmark.tsx'')")
            (simp_all add: processSvg_def tryCreate_def writeFile_def initState_def)
      qed
    qed
  qed
qed

text \<open>
  C7, as the code has it. Each descriptor records, prints and writes what it records,
  prints and writes when it is processed alone, whatever happened to the others. A failure
  of a fetch or a write is printed with the title of its icon and ends that item only: an
  item whose base component fails writes and records nothing; an item that fails in its
  wordmark keeps the base component it had written and recorded, and nothing else; an item
  that does not fail has its base component written and recorded. When the directory can
  be prepared, listed and read and the export file can be written, the export file is
  rebuilt from the records and the files then present.
\<close>

theorem failures_are_per_item:
  "createdComponents (runLoop e d svgs) =
     concat (map (\<lambda>svg. createdComponents (processSvg e (initState []) svg)) svgs)
   \<and> console (runLoop e d svgs) =
       concat (map (\<lambda>svg. case fst (tryCreate e (initState []) svg) of
                             None \<Rightarrow> []
                           | Some err \<Rightarrow> [FailedToCreate (title svg) err]) svgs)
   \<and> files (runLoop e d svgs) =
       writeAll d (concat (map (\<lambda>svg. files (processSvg e (initState []) svg)) svgs))
   \<and> (\<forall>svg. (\<exists>err. componentContent e (componentName (title svg)) (route svg) = Inl err)
              \<or> writeFails e (kebabName (title svg) @ ''.tsx'')
          \<longrightarrow> createdComponents (processSvg e (initState []) svg) = []
              \<and> files (processSvg e (initState []) svg) = []
              \<and> fst (tryCreate e (initState []) svg) \<noteq> None)
   \<and> (\<forall>svg content w.
          componentContent e (componentName (title svg)) (route svg) = Inr content
          \<and> \<not> writeFails e (kebabName (title svg) @ ''.tsx'')
          \<and> truthy (wordmark svg) = Some w
          \<and> ((\<exists>err. wordmarkContent e (componentName (title svg)) w = Inl err)
               \<or> writeFails e (kebabName (title svg) @ ''-wordmark.tsx''))
          \<longrightarrow> createdComponents (processSvg e (initState []) svg) = [baseRecord svg]
              \<and> files (processSvg e (initState []) svg)
                  = [(kebabName (title svg) @ ''.tsx'', content)]
              \<and> fst (tryCreate e (initState []) svg) \<noteq> None)
   \<and> (\<forall>svg. fst (tryCreate e (initState []) svg) = None
          \<longrightarrow> (\<exists>content.
                  componentContent e (componentName (title svg)) (route svg) = Inr content
                  \<and> (kebabName (title svg) @ ''.tsx'', content)
                      \<in> set (files (processSvg e (initState []) svg))
                  \<and> baseRecord svg
                      \<in> set (createdComponents (processSvg e (initState []) svg))))
   \<and> (\<not> ensureDirFails e \<and> \<not> readdirFails e
        \<and> (\<forall>entry\<in>set (files (runLoop e d svgs)). \<not> readFails e (fst entry))
        \<and> \<not> writeFails e ''index.tsx'' \<longrightarrow>
        (\<exists>st'. generate e d svgs = Inr st'
           \<and> map_of (files st') ''index.tsx''
               = Some (indexContent (allComponentsOf (runLoop e d svgs)))))"
proof (intro conjI)
  show "createdComponents (runLoop e d svgs) =
     concat (map (\<lambda>svg. createdComponents (processSvg e (initState []) svg)) svgs)"
    by (rule runLoop_created)
  show "console (runLoop e d svgs) =
       concat (map (\<lambda>svg. case fst (tryCreate e (initState []) svg) of
                             None \<Rightarrow> []
                           | Some err \<Rightarrow> [FailedToCreate (title svg) err]) svgs)"
    unfolding runLoop_console by (simp add: processSvg_console_alone)
  show "files (runLoop e d svgs) =
       writeAll d (concat (map (\<lambda>svg. files (processSvg e (initState []) svg)) svgs))"
    by (rule runLoop_files)
  show "\<forall>svg. (\<exists>err. componentContent e (componentName (title svg)) (route svg) = Inl err)
              \<or> writeFails e (kebabName (title svg) @ ''.tsx'')
          \<longrightarrow> createdComponents (processSvg e (initState []) svg) = []
              \<and> files (processSvg e (initState []) svg) = []
              \<and> fst (tryCreate e (initState []) svg) \<noteq> None"
    using processSvg_base_fails processSvg_base_fails_files by (intro allI impI) simp
  show "\<forall>svg content w.
          componentContent e (componentName (title svg)) (route svg) = Inr content
          \<and> \<not> writeFails e (kebabName (title svg) @ ''.tsx'')
          \<and> truthy (wordmark svg) = Some w
          \<and> ((\<exists>err. wordmarkContent e (componentName (title svg)) w = Inl err)
               \<or> writeFails e (kebabName (title svg) @ ''-wordmark.tsx''))
          \<longrightarrow> createdComponents (processSvg e (initState []) svg) = [baseRecord svg]
              \<and> files (processSvg e (initState []) svg)
                  = [(kebabName (title svg) @ ''.tsx'', content)]
              \<and> fst (tryCreate e (initState []) svg) \<noteq> None"
  proof (intro allI impI, elim conjE)
    fix svg :: iSVG and content w
    assume "componentContent e (componentName (title svg)) (route svg) = Inr content"
      "\<not> writeFails e (kebabName (title svg) @ ''.tsx'')"
      "truthy (wordmark svg) = Some w"
      "(\<exists>err. wordmarkContent e (componentName (title svg)) w = Inl err)
         \<or> writeFails e (kebabName (title svg) @ ''-wordmark.tsx'')"
    then show "createdComponents (processSvg e (initState []) svg) = [baseRecord svg]
              \<and> files (processSvg e (initState []) svg)
                  = [(kebabName (title svg) @ ''.tsx'', content)]
              \<and> fst (tryCreate e (initState []) svg) \<noteq> None"
      by (rule processSvg_wordmark_fails_alone)
  qed
  show "\<forall>svg. fst (tryCreate e (initState []) svg) = None
          \<longrightarrow> (\<exists>content.
                  componentContent e (componentName (title svg)) (route svg) = Inr content
                  \<and> (kebabName (title svg) @ ''.tsx'', content)
                      \<in> set (files (processSvg e (initState []) svg))
                  \<and> baseRecord svg
                      \<in> set (createdComponents (processSvg e (initState []) svg)))"
    using processSvg_unfailed by (intro allI impI)
  show "\<not> ensureDirFails e \<and> \<not> readdirFails e
        \<and> (\<forall>entry\<in>set (files (runLoop e d svgs)). \<not> readFails e (fst entry))
        \<and> \<not> writeFails e ''index.tsx'' \<longrightarrow>
        (\<exists>st'. generate e d svgs = Inr st'
           \<and> map_of (files st') ''index.tsx''
               = Some (indexContent (allComponentsOf (runLoop e d svgs))))"
    using generate_writes_index by (intro impI) blast
qed

theorem failures_are_per_item_witness:
  "createdComponents (runLoop exampleEnv [] [broken, github]) =
     [\<lparr>name = ''GitHub'', fileName = ''github'', hasDarkLight = False, isWordmark = None\<rparr>]
   \<and> console (runLoop exampleEnv [] [broken, github]) = [FailedToCreate ''Broken'' FetchError]
   \<and> map fst (files (runLoop exampleEnv [] [broken, github])) = [''github.tsx'']"
proof -
  have b: "processSvg exampleEnv (initState []) broken =
      (initState [])\<lparr>console := [FailedToCreate ''Broken'' FetchError]\<rparr>"
    by (simp add: processSvg_def tryCreate_def componentContent_def exampleEnv_def broken_def
        icon_def initState_def)
  have tb: "tryCreate exampleEnv (initState []) broken = (Some FetchError, initState [])"
    by (simp add: tryCreate_def componentContent_def exampleEnv_def broken_def icon_def)
  have tg: "fst (tryCreate exampleEnv (initState []) github) = None"
    by (simp add: tryCreate_def componentContent_def exampleEnv_def github_def icon_def
        writeFile_def Let_def)
  have g: "createdComponents (processSvg exampleEnv (initState []) github) =
      [\<lparr>name = ''GitHub'', fileName = ''github'', hasDarkLight = False, isWordmark = None\<rparr>]"
    by (simp add: processSvg_def tryCreate_def componentContent_def exampleEnv_def github_def
        icon_def initState_def writeFile_def Let_def baseRecord_def isString_def github_names)
  have gf: "map fst (files (processSvg exampleEnv (initState []) github)) = [''github.tsx'']"
    by (simp add: processSvg_def tryCreate_def componentContent_def exampleEnv_def github_def
        icon_def initState_def writeFile_def Let_def github_names)
  have cb: "createdComponents (processSvg exampleEnv (initState []) broken) = []"
    by (subst b) (simp add: initState_def)
  have fb: "files (processSvg exampleEnv (initState []) broken) = []"
    by (subst b) (simp add: initState_def)
  have tt: "title broken = ''Broken''"
    by (simp add: broken_def icon_def)
  note inst = failures_are_per_item [of exampleEnv "[]" "[broken, github]"]
  have 1: "createdComponents (runLoop exampleEnv [] [broken, github]) =
     [\<lparr>name = ''GitHub'', fileName = ''github'', hasDarkLight = False, isWordmark = None\<rparr>]"
    using conjunct1 [OF inst] by (simp add: cb g)
  have 2: "console (runLoop exampleEnv [] [broken, github])
             = [FailedToCreate ''Broken'' FetchError]"
    using conjunct1 [OF conjunct2 [OF inst]] by (simp add: tb tg tt)
  obtain c where gfc: "files (processSvg exampleEnv (initState []) github) = [(''github.tsx'', c)]"
    using gf by (cases "files (processSvg exampleEnv (initState []) github)") auto
  have 3: "map fst (files (runLoop exampleEnv [] [broken, github])) = [''github.tsx'']"
    using conjunct1 [OF conjunct2 [OF conjunct2 [OF inst]]]
    by (simp add: fb gfc writeAll_def)
  from 1 2 3 show ?thesis by simp
qed

text \<open>
  C7 as stated fails: the item below fails (its wordmark cannot be fetched) and is
  reported, and yet its base component stays in the generated set.
\<close>

theorem failed_item_not_omitted:
  "console (runLoop exampleEnv [] [halfAcme]) = [FailedToCreate ''Acme Inc'' FetchError]
   \<and> createdComponents (runLoop exampleEnv [] [halfAcme]) =
       [\<lparr>name = ''AcmeInc'', fileName = ''acme-inc'', hasDarkLight = False, isWordmark = None\<rparr>]"
  by (simp add: runLoop_def processSvg_def tryCreate_def componentContent_def
      wordmarkContent_def exampleEnv_def halfAcme_def icon_def initState_def writeFile_def
      Let_def baseRecord_def isString_def acme_names)


section \<open>Theme-aware components\<close>

lemma extract_examples:
  \<open>extractSvgContent ''<svg width="24" height="24"><path/></svg>'' = ''<svg  ><path/></svg>''\<close>
  \<open>extractSvgContent ''<svg><path fill="white"/></svg>'' = ''<svg><path fill="white"/></svg>''\<close>
  by (simp_all add: extractSvgContent_def trim_def isWhiteSpace_def matchAttrAt_def)

lemma renderThemed_selects:
  "renderThemed mounted resolvedTheme l d =
     (if mounted \<and> resolvedTheme = ''dark'' then injectPropsLines d else injectPropsLines l)"
  by (simp add: renderThemed_def)

lemma renderThemedWordmark_selects:
  "renderThemedWordmark resolvedTheme l d =
     (if resolvedTheme = ''dark'' then injectProps d else injectProps l)"
  by (simp add: renderThemedWordmark_def)

text \<open>
  C2, where the code departs from it. The component emitted for a themed wordmark
  (fetched here for the icon \<open>Acme Inc\<close>) computes \<open>isDark\<close> from the resolved theme
  alone: its text holds no \<open>mounted\<close> state, and its first render under a dark theme
  already shows the dark markup, where the themed base component shows the light one.
\<close>

theorem themed_wordmark_first_render:
  \<open>wordmarkContent exampleEnv ''AcmeInc'' (Themed ''acme-light.svg'' ''acme-dark.svg'')
     = Inr (themedWordmarkTemplate ''AcmeInc'' ''<svg  ><path/></svg>''
              ''<svg><path fill="white"/></svg>'')
   \<and> sublist ''  const isDark = resolvedTheme === 'dark';''
         (themedWordmarkTemplate ''AcmeInc'' ''<svg  ><path/></svg>''
            ''<svg><path fill="white"/></svg>'')
   \<and> \<not> sublist ''mounted''
         (themedWordmarkTemplate ''AcmeInc'' ''<svg  ><path/></svg>''
            ''<svg><path fill="white"/></svg>'')
   \<and> renderThemedWordmark ''dark'' ''<svg  ><path/></svg>'' ''<svg><path fill="white"/></svg>''
       = ''<svg className={className} width={width} height={height} {...props}><path fill="white"/></svg>''
   \<and> renderThemed False ''dark'' ''<svg  ><path/></svg>'' ''<svg><path fill="white"/></svg>''
       = injectPropsLines ''<svg  ><path/></svg>''\<close>
proof (intro conjI)
  show \<open>wordmarkContent exampleEnv ''AcmeInc'' (Themed ''acme-light.svg'' ''acme-dark.svg'')
     = Inr (themedWordmarkTemplate ''AcmeInc'' ''<svg  ><path/></svg>''
              ''<svg><path fill="white"/></svg>'')\<close>
    by (simp add: wordmarkContent_def exampleEnv_def extract_examples)
  show \<open>sublist ''  const isDark = resolvedTheme === 'dark';''
         (themedWordmarkTemplate ''AcmeInc'' ''<svg  ><path/></svg>''
            ''<svg><path fill="white"/></svg>'')\<close>
    unfolding themedWordmarkTemplate_def
    by ((rule sublist_lines_prefix, (simp; fail)) | rule sublist_lines_skip)+
  show \<open>\<not> sublist ''mounted''
         (themedWordmarkTemplate ''AcmeInc'' ''<svg  ><path/></svg>''
            ''<svg><path fill="white"/></svg>'')\<close>
    by (simp add: themedWordmarkTemplate_def lines_def nl_def injectProps_def
        sublist_Cons_right)
  show \<open>renderThemedWordmark ''dark'' ''<svg  ><path/></svg>'' ''<svg><path fill="white"/></svg>''
       = ''<svg className={className} width={width} height={height} {...props}><path fill="white"/></svg>''\<close>
    by (simp add: renderThemedWordmark_def injectProps_def)
  show \<open>renderThemed False ''dark'' ''<svg  ><path/></svg>'' ''<svg><path fill="white"/></svg>''
       = injectPropsLines ''<svg  ><path/></svg>''\<close>
    by (simp add: renderThemed_def)
qed


section \<open>The sanitizer\<close>

lemma matchAttrAt_Some:
  assumes "matchAttrAt key u = Some rest"
  shows "\<exists>v. u = key @ [CHR ''='', CHR 0x22] @ v @ [CHR 0x22] @ rest \<and> CHR 0x22 \<notin> set v"
proof -
  let ?q = "CHR 0x22"
  from assms have p: "prefix (key @ [CHR ''='', ?q]) u"
    by (auto simp: matchAttrAt_def split: if_splits)
  then obtain u' where u: "u = (key @ [CHR ''='', ?q]) @ u'"
    by (auto simp: prefix_def)
  then have d: "drop (length key + 2) u = u'" by simp
  define r where "r = dropWhile (\<lambda>c. c \<noteq> ?q) u'"
  from assms p d have r: "r \<noteq> []" "rest = tl r"
    by (auto simp: matchAttrAt_def Let_def r_def split: if_splits)
  have "hd r = ?q"
    using r(1) hd_dropWhile [of "\<lambda>c. c \<noteq> ?q" u'] unfolding r_def by blast
  with r have rr: "r = ?q # rest" by (cases r) auto
  have "u' = takeWhile (\<lambda>c. c \<noteq> ?q) u' @ r"
    by (simp add: r_def)
  moreover have "?q \<notin> set (takeWhile (\<lambda>c. c \<noteq> ?q) u')"
    by (auto dest: set_takeWhileD)
  ultimately show ?thesis
    using u rr by (intro exI [of _ "takeWhile (\<lambda>c. c \<noteq> ?q) u'"]) simp
qed

lemma matchAttrAt_text:
  assumes "CHR 0x22 \<notin> set v"
  shows "matchAttrAt key (key @ [CHR ''='', CHR 0x22] @ v @ [CHR 0x22] @ rest) = Some rest"
proof -
  have "dropWhile (\<lambda>c. c \<noteq> CHR 0x22) (v @ CHR 0x22 # rest) = CHR 0x22 # rest"
    using assms by (subst dropWhile_append2) auto
  then show ?thesis
    by (simp add: matchAttrAt_def)
qed

lemma attrText_nonempty: "\<not> attrText key []"
  by (simp add: attrText_def)

lemma matchAttrAt_None:
  assumes "matchAttrAt key t = None" "t = pre @ m @ post" "attrText key m"
  shows "pre \<noteq> []"
proof
  assume "pre = []"
  with assms(2,3) obtain v where "t = key @ [CHR ''='', CHR 0x22] @ v @ [CHR 0x22] @ post"
    "CHR 0x22 \<notin> set v"
    by (auto simp: attrText_def)
  with matchAttrAt_text [of v key post] assms(1) show False by simp
qed

lemma removeFirstAttr_first: "firstMatchRemoved key t (removeFirstAttr key t)"
proof (induction t)
  case Nil
  have "\<forall>pre m post. [] = pre @ m @ post \<longrightarrow> \<not> attrText key m"
    by (auto simp: attrText_nonempty)
  then show ?case
    unfolding firstMatchRemoved_def by simp
next
  case (Cons c cs)
  show ?case
  proof (cases "matchAttrAt key (c # cs)")
    case (Some rest)
    from matchAttrAt_Some [OF Some] obtain v where
      v: "c # cs = key @ [CHR ''='', CHR 0x22] @ v @ [CHR 0x22] @ rest" "CHR 0x22 \<notin> set v"
      by blast
    let ?m = "key @ [CHR ''='', CHR 0x22] @ v @ [CHR 0x22]"
    have "c # cs = [] @ ?m @ rest" using v(1) by simp
    moreover have "attrText key ?m" using v(2) by (auto simp: attrText_def)
    moreover have "removeFirstAttr key (c # cs) = [] @ rest" using Some by simp
    ultimately show ?thesis
      unfolding firstMatchRemoved_def
      by (intro disjI1 exI [of _ "[]"] exI [of _ ?m] exI [of _ rest]) simp
  next
    case None
    then have r: "removeFirstAttr key (c # cs) = c # removeFirstAttr key cs" by simp
    have shift: "\<exists>pre''. pre' = c # pre'' \<and> cs = pre'' @ m' @ post'"
      if "c # cs = pre' @ m' @ post'" "attrText key m'" for pre' m' post'
    proof -
      from matchAttrAt_None [OF None that] have "pre' \<noteq> []" .
      with that(1) show ?thesis by (cases pre') auto
    qed
    from Cons.IH show ?thesis
      unfolding firstMatchRemoved_def
    proof (elim disjE exE conjE)
      fix pre m post
      assume a: "cs = pre @ m @ post" "attrText key m"
        "\<forall>pre' m' post'. cs = pre' @ m' @ post' \<and> attrText key m' \<longrightarrow> length pre \<le> length pre'"
        "removeFirstAttr key cs = pre @ post"
      have "c # cs = (c # pre) @ m @ post" using a(1) by simp
      moreover have "\<forall>pre' m' post'. c # cs = pre' @ m' @ post' \<and> attrText key m'
          \<longrightarrow> length (c # pre) \<le> length pre'"
      proof (intro allI impI)
        fix pre' m' post'
        assume "c # cs = pre' @ m' @ post' \<and> attrText key m'"
        with shift obtain pre'' where "pre' = c # pre''" "cs = pre'' @ m' @ post'"
          "attrText key m'" by blast
        with a(3) show "length (c # pre) \<le> length pre'" by auto
      qed
      moreover have "removeFirstAttr key (c # cs) = (c # pre) @ post"
        using r a(4) by simp
      ultimately show "(\<exists>pre m post. c # cs = pre @ m @ post \<and> attrText key m
           \<and> (\<forall>pre' m' post'. c # cs = pre' @ m' @ post' \<and> attrText key m'
                  \<longrightarrow> length pre \<le> length pre')
           \<and> removeFirstAttr key (c # cs) = pre @ post)
        \<or> ((\<forall>pre m post. c # cs = pre @ m @ post \<longrightarrow> \<not> attrText key m)
            \<and> removeFirstAttr key (c # cs) = c # cs)"
        using a(2) by blast
    next
      assume a: "\<forall>pre m post. cs = pre @ m @ post \<longrightarrow> \<not> attrText key m"
        "removeFirstAttr key cs = cs"
      have "\<forall>pre m post. c # cs = pre @ m @ post \<longrightarrow> \<not> attrText key m"
        using shift a(1) by blast
      then show "(\<exists>pre m post. c # cs = pre @ m @ post \<and> attrText key m
           \<and> (\<forall>pre' m' post'. c # cs = pre' @ m' @ post' \<and> attrText key m'
                  \<longrightarrow> length pre \<le> length pre')
           \<and> removeFirstAttr key (c # cs) = pre @ post)
        \<or> ((\<forall>pre m post. c # cs = pre @ m @ post \<longrightarrow> \<not> attrText key m)
            \<and> removeFirstAttr key (c # cs) = c # cs)"
        using r a(2) by simp
    qed
  qed
qed

lemma trim_decomposition:
  "\<exists>a b. s = a @ trim s @ b \<and> (\<forall>c\<in>set a. isWhiteSpace c) \<and> (\<forall>c\<in>set b. isWhiteSpace c)"
proof -
  define rest where "rest = dropWhile isWhiteSpace s"
  have s: "s = takeWhile isWhiteSpace s @ rest" by (simp add: rest_def)
  have "rest = rev (rev rest)" by simp
  also have "\<dots> = rev (takeWhile isWhiteSpace (rev rest) @ dropWhile isWhiteSpace (rev rest))"
    by (simp only: takeWhile_dropWhile_id)
  also have "\<dots> = rev (dropWhile isWhiteSpace (rev rest)) @ rev (takeWhile isWhiteSpace (rev rest))"
    by (simp only: rev_append)
  finally have rest: "rest = trim s @ rev (takeWhile isWhiteSpace (rev rest))"
    by (simp only: trim_def rest_def)
  have "\<forall>c\<in>set (takeWhile isWhiteSpace s). isWhiteSpace c"
    by (auto dest: set_takeWhileD)
  moreover have "\<forall>c\<in>set (rev (takeWhile isWhiteSpace (rev rest))). isWhiteSpace c"
    by (auto dest: set_takeWhileD)
  moreover have "s = takeWhile isWhiteSpace s @ trim s @ rev (takeWhile isWhiteSpace (rev rest))"
    using s rest by simp
  ultimately show ?thesis by blast
qed

lemma trim_ends:
  assumes "trim s \<noteq> []"
  shows "\<not> isWhiteSpace (hd (trim s)) \<and> \<not> isWhiteSpace (last (trim s))"
proof -
  define rest where "rest = dropWhile isWhiteSpace s"
  define bk where "bk = dropWhile isWhiteSpace (rev rest)"
  have t: "trim s = rev bk" by (simp add: trim_def rest_def bk_def)
  with assms have b: "bk \<noteq> []" by simp
  then have "\<not> isWhiteSpace (hd bk)"
    unfolding bk_def using hd_dropWhile [of isWhiteSpace "rev rest"] by blast
  then have l: "\<not> isWhiteSpace (last (trim s))"
    using b t by (simp add: last_rev)
  have "suffix bk (rev rest)" unfolding bk_def by (rule suffix_dropWhile)
  then obtain z where "rev rest = z @ bk" by (auto simp: suffix_def)
  then have "rev (rev rest) = rev (z @ bk)" by (rule arg_cong)
  then have rest: "rest = trim s @ rev z" using t by simp
  with assms have "rest \<noteq> []" by auto
  then have "\<not> isWhiteSpace (hd rest)"
    unfolding rest_def using hd_dropWhile [of isWhiteSpace s] by blast
  moreover have "hd rest = hd (trim s)" using rest assms by (metis hd_append2)
  ultimately show ?thesis using l by simp
qed

lemma extract_example:
  \<open>extractSvgContent ''<svg width="24" height="24"><path/></svg>'' = ''<svg  ><path/></svg>''\<close>
  by (simp add: extractSvgContent_def trim_def isWhiteSpace_def matchAttrAt_def)

text \<open>
  What the sanitizer computes, as a transformation of text: it trims the white space at
  both ends, then removes the leftmost text of the form \<open>width="..."\<close>, then the leftmost
  text of the form \<open>height="..."\<close> of what is left; everything else stays, later
  occurrences included. On \<open><svg width="24" height="24"><path/></svg>\<close> neither
  \<open>width="24"\<close> nor \<open>height="24"\<close> is left and \<open><path/>\<close> is.
\<close>

lemma sanitizer_first_matches:
  \<open>(\<exists>a b. svgString = a @ trim svgString @ b
        \<and> (\<forall>c\<in>set a. isWhiteSpace c) \<and> (\<forall>c\<in>set b. isWhiteSpace c))
   \<and> (trim svgString \<noteq> [] \<longrightarrow>
        \<not> isWhiteSpace (hd (trim svgString)) \<and> \<not> isWhiteSpace (last (trim svgString)))
   \<and> (\<exists>w. firstMatchRemoved ''width'' (trim svgString) w
          \<and> firstMatchRemoved ''height'' w (extractSvgContent svgString))
   \<and> extractSvgContent ''<svg width="24" height="24"><path/></svg>'' = ''<svg  ><path/></svg>''
   \<and> \<not> sublist ''width="24"'' ''<svg  ><path/></svg>''
   \<and> \<not> sublist ''height="24"'' ''<svg  ><path/></svg>''
   \<and> sublist ''<path/>'' ''<svg  ><path/></svg>''\<close>
proof -
  have \<open>\<exists>w. firstMatchRemoved ''width'' (trim svgString) w
          \<and> firstMatchRemoved ''height'' w (extractSvgContent svgString)\<close>
    unfolding extractSvgContent_def
    by (intro exI [of _ "removeFirstAttr ''width'' (trim svgString)"] conjI
        removeFirstAttr_first)
  moreover have \<open>\<not> sublist ''width="24"'' ''<svg  ><path/></svg>''\<close>
    \<open>\<not> sublist ''height="24"'' ''<svg  ><path/></svg>''\<close>
    \<open>sublist ''<path/>'' ''<svg  ><path/></svg>''\<close>
    by (simp_all add: sublist_Cons_right)
  ultimately show ?thesis
    using trim_decomposition [of svgString] trim_ends [of svgString] extract_example
    by (intro conjI) blast+
qed

lemma extract_later_occurrence:
  \<open>trim ''  <svg width="1" height="3" width="2"/> '' = ''<svg width="1" height="3" width="2"/>''\<close>
  \<open>extractSvgContent ''  <svg width="1" height="3" width="2"/> '' = ''<svg   width="2"/>''\<close>
  by (simp_all add: extractSvgContent_def trim_def isWhiteSpace_def matchAttrAt_def)

lemma sanitizer_later_occurrence:
  \<open>\<exists>w. firstMatchRemoved ''width'' ''<svg width="1" height="3" width="2"/>'' w
       \<and> firstMatchRemoved ''height'' w ''<svg   width="2"/>''\<close>
  using conjunct1 [OF conjunct2 [OF conjunct2
      [OF sanitizer_first_matches [of \<open>''  <svg width="1" height="3" width="2"/> ''\<close>]]]]
  unfolding extract_later_occurrence .

text \<open>
  C4, where the code departs from it. In the markup below the first fixed width attribute
  is \<open>width="24"\<close>. The sanitizer, whose comments say that it removes the fixed width
  so that no width or height attribute is preserved, leaves that attribute in place and
  cuts the attribute \<open>stroke-width\<close> instead, because its pattern also matches inside a
  longer attribute name; in the emitted component the fixed \<open>width="24"\<close> then follows
  the \<open>width={width}\<close> of the props.
\<close>

theorem stroke_width_cut:
  \<open>extractSvgContent ''<svg stroke-width="2" width="24" height="24"><path/></svg>''
     = ''<svg stroke- width="24" ><path/></svg>''
   \<and> sublist ''width="24"''
         (extractSvgContent ''<svg stroke-width="2" width="24" height="24"><path/></svg>'')
   \<and> injectProps
         (extractSvgContent ''<svg stroke-width="2" width="24" height="24"><path/></svg>'')
       = ''<svg className={className} width={width} height={height} {...props} stroke- width="24" ><path/></svg>''\<close>
  by (simp add: extractSvgContent_def trim_def isWhiteSpace_def matchAttrAt_def
      injectProps_def sublist_Cons_right)


section \<open>The aggregate export\<close>

subsection \<open>Merging by slug\<close>






lemma scanFile_index: "scanFile allc (''index.tsx'', content) = allc"
  by (simp add: scanFile_def)


lemma generate_Inr:
  assumes "generate e d svgs = Inr st"
  shows "files st = AList.update ''index.tsx''
                      (indexContent (allComponentsOf (runLoop e d svgs)))
                      (files (runLoop e d svgs))"
    and "createdComponents st = createdComponents (runLoop e d svgs)"
proof -
  from assms obtain allc where
    scan: "scanAll e (createdComponents (runLoop e d svgs)) (files (runLoop e d svgs))
             = Some allc"
    and st: "st = (runLoop e d svgs)\<lparr>files := AList.update ''index.tsx'' (indexContent allc)
                                        (files (runLoop e d svgs)),
          console := console (runLoop e d svgs) @
            [Succeed (length (createdComponents (runLoop e d svgs))) (length allc),
             Usage (case createdComponents (runLoop e d svgs) of
                      [] \<Rightarrow> ''ComponentName''
                    | c # cs \<Rightarrow> if name c = [] then ''ComponentName'' else name c)]\<rparr>"
    by (auto simp: generate_def writeFile_def Let_def split: if_splits option.splits)
  from scanAll_Some [OF scan] have "allc = allComponentsOf (runLoop e d svgs)"
    by (simp add: allComponentsOf_def)
  with st show "files st = AList.update ''index.tsx''
                      (indexContent (allComponentsOf (runLoop e d svgs)))
                      (files (runLoop e d svgs))"
    and "createdComponents st = createdComponents (runLoop e d svgs)"
    by simp_all
qed


subsection \<open>Reading a generated file back\<close>

text \<open>The scan finds, in a file that the generator wrote, the symbol that the file
  declares: no match of \<open>export const (\w+):\<close> starts before the declaration.\<close>

lemma alnum_not_space: "isAlnum c \<Longrightarrow> c \<noteq> CHR '' ''"
  by (auto simp: isAlnum_def)

lemma no_export_in_word:
  assumes "\<forall>c\<in>set w. isAlnum c" "w \<noteq> []" "r \<noteq> []" "hd r \<notin> set ''xport ''"
  shows "\<not> prefix ''export const '' (w @ r)"
proof
  assume "prefix ''export const '' (w @ r)"
  then obtain z where z: "w @ r = ''export const '' @ z" by (auto simp: prefix_def)
  have "length w < 7 \<or> 7 \<le> length w" by arith
  then show False
  proof
    assume long: "7 \<le> length w"
    from z have "take 7 (w @ r) = take 7 (''export const '' @ z)" by simp
    with long have "take 7 w = ''export ''" by simp
    then have "CHR '' '' \<in> set (take 7 w)" by simp
    then have "CHR '' '' \<in> set w" by (rule in_set_takeD)
    with assms(1) alnum_not_space show False by blast
  next
    assume short: "length w < 7"
    from z have "drop (length w) (w @ r) = drop (length w) (''export const '' @ z)" by simp
    then have r: "r = drop (length w) (''export const '' @ z)" by simp
    from short assms(2) have "0 < length w \<and> length w < 7" by simp
    then have
      "length w = 1 \<or> length w = 2 \<or> length w = 3 \<or> length w = 4 \<or> length w = 5
       \<or> length w = 6"
      by arith
    then have "hd r \<in> set ''xport ''"
      by (elim disjE) (subst r, simp)+
    with assms(4) show False by simp
  qed
qed

lemma matchExportAt_no_prefix:
  "\<not> prefix ''export const '' s \<Longrightarrow> matchExportAt s = None"
  by (simp only: matchExportAt_def if_False)

lemma exportName_skip:
  "\<not> prefix ''export const '' (c # s) \<Longrightarrow> exportName (c # s) = exportName s"
proof -
  assume "\<not> prefix ''export const '' (c # s)"
  then have "matchExportAt (c # s) = None" by (rule matchExportAt_no_prefix)
  then show ?thesis by simp
qed

lemma exportName_skip_word:
  assumes "\<forall>c\<in>set w. isAlnum c" "r \<noteq> []" "hd r \<notin> set ''xport ''"
  shows "exportName (w @ r) = exportName r"
  using assms(1)
proof (induction w)
  case Nil
  show ?case by simp
next
  case (Cons a w)
  then have "\<not> prefix ''export const '' ((a # w) @ r)"
    using no_export_in_word [of "a # w" r] assms(2,3) by simp
  then have "exportName (a # (w @ r)) = exportName (w @ r)"
    by (intro exportName_skip) simp
  with Cons show ?case by simp
qed

lemma colon_not_word: "\<not> isWordChar CHR '':''"
  by (simp add: isWordChar_def isAlnum_def)

lemma matchExportAt_here:
  assumes "\<forall>c\<in>set w. isWordChar c" "w \<noteq> []"
  shows "matchExportAt (''export const '' @ w @ CHR '':'' # r) = Some w"
proof -
  have "takeWhile isWordChar w = w"
    using assms(1) by (simp add: takeWhile_eq_all_conv)
  then have tw: "takeWhile isWordChar (w @ CHR '':'' # r) = w"
    by (simp add: takeWhile_tail colon_not_word)
  have dw: "dropWhile isWordChar (w @ CHR '':'' # r) = CHR '':'' # r"
    using assms(1) colon_not_word by (simp add: dropWhile_append3)
  have d: "drop 13 (''export const '' @ w @ CHR '':'' # r) = w @ CHR '':'' # r"
    by simp
  have p: "prefix ''export const '' (''export const '' @ w @ CHR '':'' # r)"
    by (rule prefixI) simp
  show ?thesis
    unfolding matchExportAt_def Let_def
    by (simp only: p d tw dw if_True) (simp add: assms(2))
qed

lemma exportName_here:
  assumes "\<forall>c\<in>set w. isWordChar c" "w \<noteq> []"
  shows "exportName (''export const '' @ w @ CHR '':'' # r) = Some w"
  using matchExportAt_here [OF assms, of r] by simp

lemma exportName_here_chars:
  assumes "\<forall>c\<in>set w. isWordChar c" "w \<noteq> []"
  shows "exportName (CHR ''e'' # CHR ''x'' # CHR ''p'' # CHR ''o'' # CHR ''r'' # CHR ''t''
           # CHR '' '' # CHR ''c'' # CHR ''o'' # CHR ''n'' # CHR ''s'' # CHR ''t'' # CHR '' ''
           # w @ CHR '':'' # r) = Some w"
  using exportName_here [OF assms, of r] by (simp only: append_Cons append_Nil)

lemma alnum_word: "isAlnum c \<Longrightarrow> isWordChar c"
  by (simp add: isWordChar_def)

lemma exportName_singleTemplate:
  assumes "\<forall>c\<in>set cname. isAlnum c" "cname \<noteq> []"
  shows "exportName (singleTemplate cname m) = Some cname"
proof -
  have w: "\<forall>c\<in>set cname. isWordChar c" using assms(1) alnum_word by blast
  show ?thesis
    unfolding singleTemplate_def lines_def nl_def
    by (simp add: exportName_skip exportName_skip_word [OF assms(1)]
        exportName_here_chars [OF w assms(2)] del: exportName.simps)
qed

lemma exportName_themedTemplate:
  assumes "\<forall>c\<in>set cname. isAlnum c" "cname \<noteq> []"
  shows "exportName (themedTemplate cname l d) = Some cname"
proof -
  have w: "\<forall>c\<in>set cname. isWordChar c" using assms(1) alnum_word by blast
  show ?thesis
    unfolding themedTemplate_def lines_def nl_def
    by (simp add: exportName_skip exportName_skip_word [OF assms(1)]
        exportName_here_chars [OF w assms(2)] del: exportName.simps)
qed

lemma exportName_here_wordmark:
  assumes "\<forall>c\<in>set cname. isAlnum c"
  shows "exportName (CHR ''e'' # CHR ''x'' # CHR ''p'' # CHR ''o'' # CHR ''r'' # CHR ''t''
           # CHR '' '' # CHR ''c'' # CHR ''o'' # CHR ''n'' # CHR ''s'' # CHR ''t'' # CHR '' ''
           # cname @ CHR ''W'' # CHR ''o'' # CHR ''r'' # CHR ''d'' # CHR ''m'' # CHR ''a''
           # CHR ''r'' # CHR ''k'' # CHR '':'' # r) = Some (cname @ ''Wordmark'')"
proof -
  have "\<forall>c\<in>set ''Wordmark''. isWordChar c"
    by (simp add: isWordChar_def isAlnum_def)
  with assms have "\<forall>c\<in>set (cname @ ''Wordmark''). isWordChar c"
    using alnum_word by auto
  from exportName_here_chars [OF this, of r] show ?thesis
    by (simp del: exportName.simps)
qed

lemma exportName_wordmarkTemplate:
  assumes "\<forall>c\<in>set cname. isAlnum c"
  shows "exportName (wordmarkTemplate cname m) = Some (cname @ ''Wordmark'')"
  unfolding wordmarkTemplate_def lines_def nl_def
  by (simp add: exportName_skip exportName_skip_word [OF assms]
      exportName_here_wordmark [OF assms] del: exportName.simps)

lemma exportName_themedWordmarkTemplate:
  assumes "\<forall>c\<in>set cname. isAlnum c"
  shows "exportName (themedWordmarkTemplate cname l d) = Some (cname @ ''Wordmark'')"
  unfolding themedWordmarkTemplate_def lines_def nl_def
  by (simp add: exportName_skip exportName_skip_word [OF assms]
      exportName_here_wordmark [OF assms] del: exportName.simps)

subsection \<open>A directory of earlier runs\<close>

text \<open>The loop writes only the files of its own records, and the scan passes over them;
  what is left is the scan of the directory as it was.\<close>

lemma replaceFirst_tsx:
  "CHR ''.'' \<notin> set s \<Longrightarrow> replaceFirst ''.tsx'' [] (s @ ''.tsx'') = s"
  by (induction s) auto

lemma suffix_tsx: "suffix ''.tsx'' (s @ ''.tsx'')"
  by (rule suffixI) (rule refl)

lemma kebabName_no_dot: "CHR ''.'' \<notin> set (kebabName t)"
proof
  assume "CHR ''.'' \<in> set (kebabName t)"
  then have "CHR ''.'' \<in> set (collapseRuns (toLowerCase t))"
    using trimDash_set unfolding kebabName_def by blast
  then have "isLowerAlnum CHR ''.'' \<or> CHR ''.'' = CHR ''-''"
    by (rule collapseRuns_chars)
  then show False by (simp add: isLowerAlnum_def)
qed

lemma processSvg_records:
  "c \<in> set (createdComponents (processSvg e (initState []) svg)) \<Longrightarrow>
     c = baseRecord svg \<or> (\<exists>w. c = wordmarkRecord svg w)"
  by (auto simp: processSvg_def tryCreate_def writeFile_def initState_def Let_def
      split: sum.splits option.splits if_splits)

lemma runLoop_records:
  assumes "c \<in> set (createdComponents (runLoop e d svgs))"
  shows "\<exists>svg. c = baseRecord svg \<or> (\<exists>w. c = wordmarkRecord svg w)"
  using assms processSvg_records unfolding runLoop_created by fastforce

lemma runLoop_no_dot:
  assumes "c \<in> set (createdComponents (runLoop e d svgs))"
  shows "CHR ''.'' \<notin> set (fileName c)"
  using runLoop_records [OF assms] kebabName_no_dot
  by (auto simp: baseRecord_def wordmarkRecord_def)

lemma update_filter_out:
  "k \<in> K \<Longrightarrow> filter (\<lambda>entry. fst entry \<notin> K) (AList.update k v al)
             = filter (\<lambda>entry. fst entry \<notin> K) al"
  by (induction al) auto

lemma processSvg_files_outside:
  assumes "(\<lambda>c. fileName c @ ''.tsx'') ` set (createdComponents (processSvg e st svg)) \<subseteq> K"
  shows "filter (\<lambda>entry. fst entry \<notin> K) (files (processSvg e st svg))
         = filter (\<lambda>entry. fst entry \<notin> K) (files st)"
  using assms
  by (auto simp: processSvg_def tryCreate_def writeFile_def Let_def update_filter_out
      baseRecord_def wordmarkRecord_def
      split: sum.splits option.splits if_splits)

lemma foldl_files_outside:
  assumes "(\<lambda>c. fileName c @ ''.tsx'') ` set (createdComponents (foldl (processSvg e) st svgs))
           \<subseteq> K"
  shows "filter (\<lambda>entry. fst entry \<notin> K) (files (foldl (processSvg e) st svgs))
         = filter (\<lambda>entry. fst entry \<notin> K) (files st)"
  using assms
proof (induction svgs arbitrary: st)
  case Nil
  show ?case by simp
next
  case (Cons svg svgs)
  have "set (createdComponents (processSvg e st svg))
        \<subseteq> set (createdComponents (foldl (processSvg e) (processSvg e st svg) svgs))"
    by (subst foldl_processSvg_created) auto
  with Cons.prems
  have "(\<lambda>c. fileName c @ ''.tsx'') ` set (createdComponents (processSvg e st svg)) \<subseteq> K"
    by auto
  then have "filter (\<lambda>entry. fst entry \<notin> K) (files (processSvg e st svg))
         = filter (\<lambda>entry. fst entry \<notin> K) (files st)"
    by (rule processSvg_files_outside)
  moreover have "filter (\<lambda>entry. fst entry \<notin> K)
                   (files (foldl (processSvg e) (processSvg e st svg) svgs))
         = filter (\<lambda>entry. fst entry \<notin> K) (files (processSvg e st svg))"
    using Cons.prems by (intro Cons.IH) simp
  ultimately show ?case by simp
qed

lemma scanFile_known:
  assumes "c \<in> set acc" "CHR ''.'' \<notin> set (fileName c)"
  shows "scanFile acc (fileName c @ ''.tsx'', content) = acc"
proof -
  have "find (\<lambda>x. fileName x = fileName c) acc \<noteq> None"
    using assms(1) by (auto simp: find_None_iff)
  then show ?thesis
    by (auto simp: scanFile_def Let_def replaceFirst_tsx [OF assms(2)])
qed

lemma scanFile_mono: "set acc \<subseteq> set (scanFile acc entry)"
  using scanFile_extends [of acc entry] by auto

lemma foldl_scanFile_skip:
  assumes "set cs \<subseteq> set acc" "\<forall>c\<in>set cs. CHR ''.'' \<notin> set (fileName c)"
  shows "foldl scanFile acc d =
         foldl scanFile acc
           (filter (\<lambda>entry. fst entry \<notin> (\<lambda>c. fileName c @ ''.tsx'') ` set cs) d)"
  using assms(1)
proof (induction d arbitrary: acc)
  case Nil
  show ?case by simp
next
  case (Cons entry d)
  show ?case
  proof (cases "fst entry \<in> (\<lambda>c. fileName c @ ''.tsx'') ` set cs")
    case True
    then obtain c where c: "c \<in> set cs" "fst entry = fileName c @ ''.tsx''" by auto
    then have "entry = (fileName c @ ''.tsx'', snd entry)" by (cases entry) simp
    then have "scanFile acc entry = acc"
      using scanFile_known [of c acc "snd entry"] c(1) Cons.prems assms(2) by auto
    with True Cons.IH [OF Cons.prems] show ?thesis by simp
  next
    case False
    have "set cs \<subseteq> set (scanFile acc entry)"
      using Cons.prems scanFile_mono by blast
    from Cons.IH [OF this] False show ?thesis by simp
  qed
qed

lemma foldl_scanFile_holds:
  assumes "list_all2 (\<lambda>entry r. fst entry = fileName r @ ''.tsx''
                                 \<and> exportName (snd entry) = Some (name r))
             (filter (\<lambda>entry. fst entry \<noteq> ''index.tsx'') d) rs"
    and "distinct (map fileName rs)"
    and "fileName ` set acc \<inter> fileName ` set rs = {}"
    and "\<forall>r\<in>set rs. CHR ''.'' \<notin> set (fileName r)"
  shows "map name (foldl scanFile acc d) = map name acc @ map name rs
         \<and> map fileName (foldl scanFile acc d) = map fileName acc @ map fileName rs"
  using assms
proof (induction d arbitrary: acc rs)
  case Nil
  then show ?case by simp
next
  case (Cons entry d)
  show ?case
  proof (cases "fst entry = ''index.tsx''")
    case True
    then have "entry = (''index.tsx'', snd entry)" by (cases entry) simp
    then have "scanFile acc entry = acc" using scanFile_index by metis
    with True Cons show ?thesis by simp
  next
    case False
    with Cons.prems(1) obtain r rs' where rs: "rs = r # rs'"
      and r: "fst entry = fileName r @ ''.tsx''" "exportName (snd entry) = Some (name r)"
      and rest: "list_all2 (\<lambda>entry r. fst entry = fileName r @ ''.tsx''
                                 \<and> exportName (snd entry) = Some (name r))
             (filter (\<lambda>entry. fst entry \<noteq> ''index.tsx'') d) rs'"
      by (auto simp: list_all2_Cons1)
    have nd: "CHR ''.'' \<notin> set (fileName r)" using Cons.prems(4) rs by simp
    have "fileName r \<notin> fileName ` set acc"
      using Cons.prems(3) rs by auto
    then have "find (\<lambda>c. fileName c = fileName r) acc = None"
      unfolding find_None_iff by force
    then have step: "scanFile acc entry =
        acc @ [\<lparr>name = name r, fileName = fileName r,
                hasDarkLight = sublist ''useTheme'' (snd entry),
                isWordmark = Some (sublist ''-wordmark'' (fileName r))\<rparr>]"
      using False r by (simp add: scanFile_def Let_def replaceFirst_tsx [OF nd] suffix_tsx)
    have "fileName ` set (scanFile acc entry) \<inter> fileName ` set rs' = {}"
      using Cons.prems(2,3) rs unfolding step by auto
    from Cons.IH [OF rest _ this] Cons.prems(2,4) rs
    show ?thesis by (simp add: step)
  qed
qed

lemma list_all2_left: "list_all2 Q xs ys \<Longrightarrow> x \<in> set xs \<Longrightarrow> \<exists>y\<in>set ys. Q x y"
  by (induction rule: list_all2_induct) auto

lemma held_entries_outside:
  assumes "holdsComponents d rs"
    and "fileName ` set cs \<inter> fileName ` set rs = {}"
  shows "filter (\<lambda>entry. fst entry \<noteq> ''index.tsx'')
           (filter (\<lambda>entry. fst entry \<notin> (\<lambda>c. fileName c @ ''.tsx'') ` set cs) d)
         = filter (\<lambda>entry. fst entry \<noteq> ''index.tsx'') d"
proof -
  have "fst entry \<notin> (\<lambda>c. fileName c @ ''.tsx'') ` set cs"
    if "entry \<in> set (filter (\<lambda>entry. fst entry \<noteq> ''index.tsx'') d)" for entry
  proof -
    from assms(1) have "list_all2 (\<lambda>entry r. fst entry = fileName r @ ''.tsx''
                            \<and> exportName (snd entry) = Some (name r))
        (filter (\<lambda>entry. fst entry \<noteq> ''index.tsx'') d) rs"
      by (simp add: holdsComponents_def)
    from list_all2_left [OF this that]
    obtain r where r: "r \<in> set rs" "fst entry = fileName r @ ''.tsx''" by blast
    show ?thesis
    proof
      assume "fst entry \<in> (\<lambda>c. fileName c @ ''.tsx'') ` set cs"
      then obtain c where "c \<in> set cs" "fst entry = fileName c @ ''.tsx''" by blast
      with r have "fileName c = fileName r" "c \<in> set cs" by simp_all
      with r(1) assms(2) show False by blast
    qed
  qed
  then have "filter (\<lambda>entry. fst entry \<notin> (\<lambda>c. fileName c @ ''.tsx'') ` set cs)
               (filter (\<lambda>entry. fst entry \<noteq> ''index.tsx'') d)
             = filter (\<lambda>entry. fst entry \<noteq> ''index.tsx'') d"
    by (intro filter_True) blast
  then show ?thesis by (simp add: conj_commute)
qed

lemma rerun_exports:
  assumes "holdsComponents d rs" and "generate e d svgs = Inr st"
    and "fileName ` set (createdComponents st) \<inter> fileName ` set rs = {}"
  shows "exportedSymbols (allComponentsOf (runLoop e d svgs))
         = map name (createdComponents st) @ map name rs"
proof -
  let ?loop = "runLoop e d svgs"
  let ?cs = "createdComponents ?loop"
  let ?K = "(\<lambda>c. fileName c @ ''.tsx'') ` set ?cs"
  have cs: "createdComponents st = ?cs" by (rule generate_Inr(2) [OF assms(2)])
  have nodot: "\<forall>c\<in>set ?cs. CHR ''.'' \<notin> set (fileName c)"
    using runLoop_no_dot by blast
  have "filter (\<lambda>entry. fst entry \<notin> ?K) (files ?loop)
        = filter (\<lambda>entry. fst entry \<notin> ?K) (files (initState d))"
    unfolding runLoop_def by (rule foldl_files_outside) (simp add: runLoop_def)
  then have files: "filter (\<lambda>entry. fst entry \<notin> ?K) (files ?loop)
        = filter (\<lambda>entry. fst entry \<notin> ?K) d"
    by (simp add: initState_def)
  have "allComponentsOf ?loop = foldl scanFile ?cs (files ?loop)"
    by (simp add: allComponentsOf_def collectComponents_def)
  also have "\<dots> = foldl scanFile ?cs (filter (\<lambda>entry. fst entry \<notin> ?K) (files ?loop))"
    by (rule foldl_scanFile_skip [OF subset_refl nodot])
  also have "\<dots> = foldl scanFile ?cs (filter (\<lambda>entry. fst entry \<notin> ?K) d)"
    by (simp only: files)
  finally have all: "allComponentsOf ?loop
      = foldl scanFile ?cs (filter (\<lambda>entry. fst entry \<notin> ?K) d)" .
  have disj: "fileName ` set ?cs \<inter> fileName ` set rs = {}"
    using assms(3) cs by simp
  have held: "list_all2 (\<lambda>entry r. fst entry = fileName r @ ''.tsx''
                                 \<and> exportName (snd entry) = Some (name r))
      (filter (\<lambda>entry. fst entry \<noteq> ''index.tsx'')
         (filter (\<lambda>entry. fst entry \<notin> ?K) d)) rs"
    unfolding held_entries_outside [OF assms(1) disj]
    using assms(1) by (simp add: holdsComponents_def)
  from foldl_scanFile_holds [OF held _ disj] assms(1)
  have "map name (foldl scanFile ?cs (filter (\<lambda>entry. fst entry \<notin> ?K) d))
        = map name ?cs @ map name rs"
    by (simp add: holdsComponents_def)
  then show ?thesis
    unfolding exportedSymbols_def all cs .
qed

text \<open>A run leaves the directory holding what it held and what the run recorded.\<close>

lemma componentName_alnum: "\<forall>c\<in>set (componentName t). isAlnum c"
  by (simp add: componentName_def)

lemma componentContent_exportName:
  assumes "componentContent e (componentName t) r = Inr content" "componentName t \<noteq> []"
  shows "exportName content = Some (componentName t)"
  using assms exportName_singleTemplate [OF componentName_alnum assms(2)]
    exportName_themedTemplate [OF componentName_alnum assms(2)]
  by (auto simp: componentContent_def split: source.splits option.splits)

lemma wordmarkContent_exportName:
  assumes "wordmarkContent e (componentName t) w = Inr content"
  shows "exportName content = Some (componentName t @ ''Wordmark'')"
  using assms exportName_wordmarkTemplate [OF componentName_alnum]
    exportName_themedWordmarkTemplate [OF componentName_alnum]
  by (auto simp: wordmarkContent_def split: source.splits option.splits)

lemma update_fresh: "k \<notin> fst ` set al \<Longrightarrow> AList.update k v al = al @ [(k, v)]"
  by (induction al) auto

lemma write_holds:
  assumes la: "list_all2 (\<lambda>entry r. fst entry = fileName r @ ''.tsx''
                                 \<and> exportName (snd entry) = Some (name r))
                 (filter (\<lambda>entry. fst entry \<noteq> ''index.tsx'') fs) rs"
    and ex: "exportName content = Some (name c)"
    and ni: "fileName c \<noteq> ''index''"
    and fresh: "fileName c \<notin> fileName ` set rs"
  shows "list_all2 (\<lambda>entry r. fst entry = fileName r @ ''.tsx''
                                 \<and> exportName (snd entry) = Some (name r))
           (filter (\<lambda>entry. fst entry \<noteq> ''index.tsx'')
              (AList.update (fileName c @ ''.tsx'') content fs)) (rs @ [c])"
proof -
  let ?k = "fileName c @ ''.tsx''"
  have k: "?k \<noteq> ''index.tsx''" using ni by auto
  have "?k \<notin> fst ` set fs"
  proof
    assume "?k \<in> fst ` set fs"
    then obtain entry where entry: "entry \<in> set fs" "fst entry = ?k" by auto
    with k have "entry \<in> set (filter (\<lambda>entry. fst entry \<noteq> ''index.tsx'') fs)" by simp
    from list_all2_left [OF la this] obtain r where r: "r \<in> set rs"
      "fst entry = fileName r @ ''.tsx''" by blast
    with entry(2) have "fileName c = fileName r" by simp
    with r(1) fresh show False by (metis image_eqI)
  qed
  then have "AList.update ?k content fs = fs @ [(?k, content)]" by (rule update_fresh)
  then have "filter (\<lambda>entry. fst entry \<noteq> ''index.tsx'') (AList.update ?k content fs)
      = filter (\<lambda>entry. fst entry \<noteq> ''index.tsx'') fs @ [(?k, content)]"
    using k by simp
  then show ?thesis
    using la ex by (simp add: list_all2_appendI)
qed

lemma processSvg_outcomes:
  "(files (processSvg e st svg) = files st
      \<and> createdComponents (processSvg e st svg) = createdComponents st)
   \<or> (\<exists>content. componentContent e (componentName (title svg)) (route svg) = Inr content
        \<and> files (processSvg e st svg)
            = AList.update (kebabName (title svg) @ ''.tsx'') content (files st)
        \<and> createdComponents (processSvg e st svg) = createdComponents st @ [baseRecord svg])
   \<or> (\<exists>content w wcontent.
          componentContent e (componentName (title svg)) (route svg) = Inr content
        \<and> wordmarkContent e (componentName (title svg)) w = Inr wcontent
        \<and> files (processSvg e st svg)
            = AList.update (kebabName (title svg) @ ''-wordmark.tsx'') wcontent
                (AList.update (kebabName (title svg) @ ''.tsx'') content (files st))
        \<and> createdComponents (processSvg e st svg)
            = createdComponents st @ [baseRecord svg, wordmarkRecord svg w])"
proof (cases "componentContent e (componentName (title svg)) (route svg)")
  case (Inl err)
  then show ?thesis by (simp add: processSvg_def tryCreate_def)
next
  case base: (Inr content)
  show ?thesis
  proof (cases "writeFails e (kebabName (title svg) @ ''.tsx'')")
    case True
    with base show ?thesis by (simp add: processSvg_def tryCreate_def writeFile_def)
  next
    case written: False
    show ?thesis
    proof (cases "truthy (wordmark svg)")
      case None
      with base written show ?thesis
        by (simp add: processSvg_def tryCreate_def writeFile_def)
    next
      case (Some w)
      show ?thesis
      proof (cases "wordmarkContent e (componentName (title svg)) w")
        case (Inl err)
        with base written Some show ?thesis
          by (simp add: processSvg_def tryCreate_def writeFile_def)
      next
        case wm: (Inr wcontent)
        show ?thesis
        proof (cases "writeFails e (kebabName (title svg) @ ''-wordmark.tsx'')")
          case True
          with base written Some wm show ?thesis
            by (simp add: processSvg_def tryCreate_def writeFile_def)
        next
          case False
          with base written Some wm have
            "files (processSvg e st svg)
               = AList.update (kebabName (title svg) @ ''-wordmark.tsx'') wcontent
                   (AList.update (kebabName (title svg) @ ''.tsx'') content (files st))"
            "createdComponents (processSvg e st svg)
               = createdComponents st @ [baseRecord svg, wordmarkRecord svg w]"
            by (simp_all add: processSvg_def tryCreate_def writeFile_def)
          with base wm show ?thesis by blast
        qed
      qed
    qed
  qed
qed

lemma processSvg_holds:
  assumes la: "list_all2 (\<lambda>entry r. fst entry = fileName r @ ''.tsx''
                                 \<and> exportName (snd entry) = Some (name r))
                 (filter (\<lambda>entry. fst entry \<noteq> ''index.tsx'') (files st))
                 (rs @ createdComponents st)"
    and di: "distinct (map fileName (rs @ createdComponents (processSvg e st svg)))"
    and ok: "\<forall>c\<in>set (createdComponents (processSvg e st svg)).
               name c \<noteq> [] \<and> fileName c \<noteq> ''index''"
  shows "list_all2 (\<lambda>entry r. fst entry = fileName r @ ''.tsx''
                                 \<and> exportName (snd entry) = Some (name r))
           (filter (\<lambda>entry. fst entry \<noteq> ''index.tsx'') (files (processSvg e st svg)))
           (rs @ createdComponents (processSvg e st svg))"
  using processSvg_outcomes [of e st svg]
proof (elim disjE exE conjE)
  assume "files (processSvg e st svg) = files st"
    "createdComponents (processSvg e st svg) = createdComponents st"
  with la show ?thesis by simp
next
  fix content
  assume c: "componentContent e (componentName (title svg)) (route svg) = Inr content"
    and f: "files (processSvg e st svg)
            = AList.update (kebabName (title svg) @ ''.tsx'') content (files st)"
    and cr: "createdComponents (processSvg e st svg) = createdComponents st @ [baseRecord svg]"
  from ok cr have n: "componentName (title svg) \<noteq> []" "fileName (baseRecord svg) \<noteq> ''index''"
    by (simp_all add: baseRecord_def)
  have ex: "exportName content = Some (name (baseRecord svg))"
    using componentContent_exportName [OF c n(1)] by (simp add: baseRecord_def)
  have fresh: "fileName (baseRecord svg) \<notin> fileName ` set (rs @ createdComponents st)"
    using di cr by auto
  from write_holds [OF la ex n(2) fresh] show ?thesis
    by (simp add: f cr baseRecord_def)
next
  fix content w wcontent
  assume c: "componentContent e (componentName (title svg)) (route svg) = Inr content"
    and wc: "wordmarkContent e (componentName (title svg)) w = Inr wcontent"
    and f: "files (processSvg e st svg)
            = AList.update (kebabName (title svg) @ ''-wordmark.tsx'') wcontent
                (AList.update (kebabName (title svg) @ ''.tsx'') content (files st))"
    and cr: "createdComponents (processSvg e st svg)
            = createdComponents st @ [baseRecord svg, wordmarkRecord svg w]"
  from ok cr have n: "componentName (title svg) \<noteq> []" "fileName (baseRecord svg) \<noteq> ''index''"
    "fileName (wordmarkRecord svg w) \<noteq> ''index''"
    by (simp_all add: baseRecord_def)
  have ex: "exportName content = Some (name (baseRecord svg))"
    using componentContent_exportName [OF c n(1)] by (simp add: baseRecord_def)
  have wex: "exportName wcontent = Some (name (wordmarkRecord svg w))"
    using wordmarkContent_exportName [OF wc] by (simp add: wordmarkRecord_def)
  have fresh: "fileName (baseRecord svg) \<notin> fileName ` set (rs @ createdComponents st)"
    using di cr by auto
  have wfresh: "fileName (wordmarkRecord svg w)
                  \<notin> fileName ` set ((rs @ createdComponents st) @ [baseRecord svg])"
    using di cr by auto
  from write_holds [OF write_holds [OF la ex n(2) fresh] wex n(3) wfresh] show ?thesis
    by (simp add: f cr baseRecord_def wordmarkRecord_def)
qed

lemma foldl_processSvg_holds:
  assumes "list_all2 (\<lambda>entry r. fst entry = fileName r @ ''.tsx''
                                 \<and> exportName (snd entry) = Some (name r))
                 (filter (\<lambda>entry. fst entry \<noteq> ''index.tsx'') (files st))
                 (rs @ createdComponents st)"
    and "distinct (map fileName (rs @ createdComponents (foldl (processSvg e) st svgs)))"
    and "\<forall>c\<in>set (createdComponents (foldl (processSvg e) st svgs)).
               name c \<noteq> [] \<and> fileName c \<noteq> ''index''"
  shows "list_all2 (\<lambda>entry r. fst entry = fileName r @ ''.tsx''
                                 \<and> exportName (snd entry) = Some (name r))
           (filter (\<lambda>entry. fst entry \<noteq> ''index.tsx'')
              (files (foldl (processSvg e) st svgs)))
           (rs @ createdComponents (foldl (processSvg e) st svgs))"
  using assms
proof (induction svgs arbitrary: st)
  case Nil
  then show ?case by simp
next
  case (Cons svg svgs)
  obtain more where more:
    "createdComponents (foldl (processSvg e) (processSvg e st svg) svgs)
       = createdComponents (processSvg e st svg) @ more"
    using foldl_processSvg_created by blast
  have di: "distinct (map fileName (rs @ createdComponents (processSvg e st svg)))"
    using Cons.prems(2) by (auto simp: more)
  have ok: "\<forall>c\<in>set (createdComponents (processSvg e st svg)).
               name c \<noteq> [] \<and> fileName c \<noteq> ''index''"
    using Cons.prems(3) by (simp add: more)
  from Cons.IH [OF processSvg_holds [OF Cons.prems(1) di ok]] Cons.prems(2,3)
  show ?case by simp
qed

lemma filter_update_index:
  "filter (\<lambda>entry. fst entry \<noteq> ''index.tsx'') (AList.update ''index.tsx'' v al)
   = filter (\<lambda>entry. fst entry \<noteq> ''index.tsx'') al"
  by (induction al) auto

lemma generate_holdsComponents:
  assumes "holdsComponents d rs" and "generate e d svgs = Inr st"
    and "distinct (map fileName (rs @ createdComponents st))"
    and "\<forall>c\<in>set (createdComponents st). name c \<noteq> [] \<and> fileName c \<noteq> ''index''"
  shows "holdsComponents (files st) (rs @ createdComponents st)"
proof -
  have cs: "createdComponents st = createdComponents (foldl (processSvg e) (initState d) svgs)"
    using generate_Inr(2) [OF assms(2)] by (simp add: runLoop_def)
  have start: "list_all2 (\<lambda>entry r. fst entry = fileName r @ ''.tsx''
                                 \<and> exportName (snd entry) = Some (name r))
      (filter (\<lambda>entry. fst entry \<noteq> ''index.tsx'') (files (initState d)))
      (rs @ createdComponents (initState d))"
    using assms(1) by (simp add: holdsComponents_def initState_def)
  have "list_all2 (\<lambda>entry r. fst entry = fileName r @ ''.tsx''
                                 \<and> exportName (snd entry) = Some (name r))
      (filter (\<lambda>entry. fst entry \<noteq> ''index.tsx'')
         (files (foldl (processSvg e) (initState d) svgs)))
      (rs @ createdComponents (foldl (processSvg e) (initState d) svgs))"
    using assms(3,4) unfolding cs by (intro foldl_processSvg_holds [OF start])
  then have "list_all2 (\<lambda>entry r. fst entry = fileName r @ ''.tsx''
                                 \<and> exportName (snd entry) = Some (name r))
      (filter (\<lambda>entry. fst entry \<noteq> ''index.tsx'') (files st)) (rs @ createdComponents st)"
    unfolding generate_Inr(1) [OF assms(2)] filter_update_index cs
    by (simp add: runLoop_def)
  moreover have "\<forall>r\<in>set (rs @ createdComponents st). CHR ''.'' \<notin> set (fileName r)"
    using assms(1) runLoop_no_dot [of _ e d svgs] generate_Inr(2) [OF assms(2)]
    by (auto simp: holdsComponents_def)
  ultimately show ?thesis
    using assms(3) by (simp add: holdsComponents_def)
qed


text \<open>A directory that holds components holds them, in the order of the listing, however
  the file system lists it.\<close>

lemma holdsComponents_relisted:
  assumes "holdsComponents d rs" and "mset d' = mset d"
  shows "\<exists>rs'. mset rs' = mset rs \<and> holdsComponents d' rs'"
proof -
  from assms(1) have la: "list_all2 (\<lambda>entry r. fst entry = fileName r @ ''.tsx''
                            \<and> exportName (snd entry) = Some (name r))
        (filter (\<lambda>entry. fst entry \<noteq> ''index.tsx'') d) rs"
    by (simp add: holdsComponents_def)
  have "mset (filter (\<lambda>entry. fst entry \<noteq> ''index.tsx'') d')
        = mset (filter (\<lambda>entry. fst entry \<noteq> ''index.tsx'') d)"
    using assms(2) by (simp only: mset_filter)
  from list_all2_reorder_left_invariance [OF la this]
  obtain rs' where rs': "list_all2 (\<lambda>entry r. fst entry = fileName r @ ''.tsx''
                            \<and> exportName (snd entry) = Some (name r))
        (filter (\<lambda>entry. fst entry \<noteq> ''index.tsx'') d') rs'" "mset rs' = mset rs"
    by blast
  from rs'(2) have "mset (map fileName rs') = mset (map fileName rs)" by simp
  then have "distinct (map fileName rs') \<longleftrightarrow> distinct (map fileName rs)"
    by (rule mset_eq_imp_distinct_iff)
  moreover have "set rs' = set rs" using rs'(2) by (rule mset_eq_setD)
  ultimately have "holdsComponents d' rs'"
    using rs'(1) assms(1) by (simp add: holdsComponents_def)
  with rs'(2) show ?thesis by blast
qed

text \<open>What a second run exports, after a first run into an empty directory, whatever the
  order in which the directory of the first run is listed to the second.\<close>

lemma second_run_exports:
  assumes "generate e1 [] svgs1 = Inr st1" and "mset d' = mset (files st1)"
    and "generate e2 d' svgs2 = Inr st2"
    and "distinct (map fileName (createdComponents st1))"
    and "\<forall>c\<in>set (createdComponents st1). name c \<noteq> [] \<and> fileName c \<noteq> ''index''"
    and "fileName ` set (createdComponents st2) \<inter> fileName ` set (createdComponents st1) = {}"
  shows "\<exists>rs. mset rs = mset (createdComponents st1)
           \<and> exportedSymbols (allComponentsOf (runLoop e2 d' svgs2))
               = map name (createdComponents st2) @ map name rs"
proof -
  have "holdsComponents [] []" by (simp add: holdsComponents_def)
  from generate_holdsComponents [OF this assms(1)] assms(4,5)
  have "holdsComponents (files st1) (createdComponents st1)" by simp
  from holdsComponents_relisted [OF this assms(2)]
  obtain rs where rs: "mset rs = mset (createdComponents st1)" "holdsComponents d' rs"
    by blast
  from rs(1) have "set rs = set (createdComponents st1)" by (rule mset_eq_setD)
  with assms(6) have "fileName ` set (createdComponents st2) \<inter> fileName ` set rs = {}"
    by simp
  from rerun_exports [OF rs(2) assms(3) this] rs(1) show ?thesis by blast
qed







end
